theory Spec2Isabelle
  imports Main "HOL-Library.Multiset" "HOL-Library.Word"
begin

section \<open>Platform and library primitives\<close>

text \<open>
  Times are milliseconds since the epoch, as JavaScript's \<open>Date\<close> holds them. Every
  operation reads the clock once and receives that reading as \<open>now\<close>.

  A JavaScript string is modelled as a \<open>string\<close> whose characters stand for code units,
  so \<open>length\<close> is the source's \<open>.length\<close>.

  The functions below are not code of the repository: they are the built-ins and
  third-party calls the repository makes (\<open>String.prototype.normalize\<close>,
  \<open>toLowerCase\<close>, \<open>trim\<close>, Node's \<open>createHash('sha256')\<close>, \<open>bcrypt.hash\<close> and
  \<open>bcrypt.compare\<close>, and the time span parser behind jsonwebtoken's \<open>expiresIn\<close>).
  They are parameters of the model; a theorem that needs a fact about one of them states
  it as a hypothesis. \<open>bcrypt_hash\<close> takes the salt rounds and the salt it draws.
\<close>

type_synonym timestamp = int

record externals =
  nfkc :: "string \<Rightarrow> string"
  toLowerCase :: "string \<Rightarrow> string"
  trim :: "string \<Rightarrow> string"
  sha256_hex :: "string \<Rightarrow> string"
  bcrypt_hash :: "string \<Rightarrow> nat \<Rightarrow> string \<Rightarrow> string"
  bcrypt_compare :: "string \<Rightarrow> string \<Rightarrow> bool"
  timespan :: "string \<Rightarrow> int option"

section \<open>Errors\<close>

text \<open>
  \<open>AppError message status code\<close> is the repository's \<open>AppError\<close>; \<open>Error message\<close> is
  a plain JavaScript \<open>Error\<close>. A function that can throw returns \<open>failure + 'a\<close>.
\<close>

datatype error_code =
    INVALID_CREDENTIALS
  | LOGIN_FAILED
  | TOKEN_GENERATION_FAILED
  | TOKEN_EXPIRED
  | INVALID_TOKEN
  | TOKEN_VERIFICATION_FAILED
  | EMAIL_EXISTS
  | NICKNAME_EXISTS
  | WEAK_PASSWORD
  | USER_CREATION_FAILED

datatype failure = AppError string nat error_code | Error string

section \<open>Configuration (config/auth.config.ts)\<close>

text \<open>
  The process environment: \<open>None\<close> is an unset variable. The two numeric variables are
  held already parsed.
\<close>

record environment =
  JWT_SECRET :: "string option"
  JWT_EXPIRES_IN :: "string option"
  JWT_ISSUER :: "string option"
  JWT_AUDIENCE :: "string option"
  BCRYPT_SALT_ROUNDS :: "nat option"
  PASSWORD_MIN_LENGTH :: "nat option"
  PASSWORD_REQUIRE_SPECIAL_CHAR :: "string option"
  PASSWORD_REQUIRE_NUMBER :: "string option"
  PASSWORD_REQUIRE_UPPERCASE :: "string option"

text \<open>\<open>process.env.X || d\<close>: the default also replaces an empty string.\<close>

definition or_default :: "string option \<Rightarrow> string \<Rightarrow> string" where
  "or_default v d = (case v of None \<Rightarrow> d | Some s \<Rightarrow> if s = [] then d else s)"

definition getJwtSecret :: "environment \<Rightarrow> failure + string" where
  "getJwtSecret env =
     (case JWT_SECRET env of
        None \<Rightarrow> Inl (Error ''JWT_SECRET is not defined in environment variables'')
      | Some s \<Rightarrow>
          if s = [] then Inl (Error ''JWT_SECRET is not defined in environment variables'')
          else Inr s)"

definition getJwtExpiresIn :: "environment \<Rightarrow> string" where
  "getJwtExpiresIn env = or_default (JWT_EXPIRES_IN env) ''7d''"

definition getJwtIssuer :: "environment \<Rightarrow> string" where
  "getJwtIssuer env = or_default (JWT_ISSUER env) ''astrolune-api''"

definition getJwtAudience :: "environment \<Rightarrow> string" where
  "getJwtAudience env = or_default (JWT_AUDIENCE env) ''astrolune-client''"

definition getPasswordSaltRounds :: "environment \<Rightarrow> nat" where
  "getPasswordSaltRounds env = (case BCRYPT_SALT_ROUNDS env of None \<Rightarrow> 12 | Some n \<Rightarrow> n)"

definition getPasswordMinLength :: "environment \<Rightarrow> nat" where
  "getPasswordMinLength env = (case PASSWORD_MIN_LENGTH env of None \<Rightarrow> 8 | Some n \<Rightarrow> n)"

definition getPasswordRequireSpecialChar :: "environment \<Rightarrow> bool" where
  "getPasswordRequireSpecialChar env = (PASSWORD_REQUIRE_SPECIAL_CHAR env \<noteq> Some ''false'')"

definition getPasswordRequireNumber :: "environment \<Rightarrow> bool" where
  "getPasswordRequireNumber env = (PASSWORD_REQUIRE_NUMBER env \<noteq> Some ''false'')"

definition getPasswordRequireUppercase :: "environment \<Rightarrow> bool" where
  "getPasswordRequireUppercase env = (PASSWORD_REQUIRE_UPPERCASE env \<noteq> Some ''false'')"

section \<open>Session tokens\<close>

text \<open>
  The jsonwebtoken library is third-party code. Its tokens are modelled symbolically:
  \<open>Signed k c\<close> is the compact serialisation of the claims \<open>c\<close> with a signature made
  with the key \<open>k\<close>, and \<open>Malformed s\<close> is a string that does not parse as a token. A
  forged or tampered token is a \<open>Signed k c\<close> whose \<open>k\<close> is not the server's secret.
\<close>

record jwt_claims =
  claim_id :: string
  claim_email :: string
  claim_nickname :: string
  claim_iat :: int
  claim_exp :: "int option"
  claim_iss :: "string option"
  claim_aud :: "string option"

datatype token = Signed string jwt_claims | Malformed string

datatype jwt_error = TokenExpiredError | NotBeforeError | JsonWebTokenError string

text \<open>
  \<open>jwt.sign(payload, secret, {expiresIn, issuer, audience})\<close>: the issue time is the
  clock in whole seconds, the expiry is the issue time plus the parsed time span. A
  time span that does not parse is a plain \<open>Error\<close>.
\<close>

definition jwt_sign ::
  "externals \<Rightarrow> string \<times> string \<times> string \<Rightarrow> string \<Rightarrow> string \<Rightarrow> string \<Rightarrow> string \<Rightarrow>
   timestamp \<Rightarrow> failure + token" where
  "jwt_sign X payload secret expiresIn issuer audience now =
     (case payload of (pid, pemail, pnick) \<Rightarrow>
        (case timespan X expiresIn of
           None \<Rightarrow> Inl (Error ''expiresIn should be a number of seconds or a timespan string'')
         | Some ttl \<Rightarrow>
             Inr (Signed secret
               \<lparr>claim_id = pid, claim_email = pemail, claim_nickname = pnick,
                claim_iat = now div 1000, claim_exp = Some (now div 1000 + ttl),
                claim_iss = Some issuer, claim_aud = Some audience\<rparr>)))"

text \<open>
  \<open>jwt.verify(token, secret, {issuer, audience})\<close> checks, in the library's order: the
  token parses, the signature, the expiry against the clock in whole seconds, the
  audience, the issuer.
\<close>

definition jwt_verify ::
  "token \<Rightarrow> string \<Rightarrow> string \<Rightarrow> string \<Rightarrow> timestamp \<Rightarrow> jwt_error + jwt_claims" where
  "jwt_verify tok secret issuer audience now =
     (case tok of
        Malformed s \<Rightarrow> Inl (JsonWebTokenError ''jwt malformed'')
      | Signed k c \<Rightarrow>
          if k \<noteq> secret then Inl (JsonWebTokenError ''invalid signature'')
          else if (case claim_exp c of None \<Rightarrow> False | Some e \<Rightarrow> e \<le> now div 1000)
            then Inl TokenExpiredError
          else if claim_aud c \<noteq> Some audience
            then Inl (JsonWebTokenError ''jwt audience invalid'')
          else if claim_iss c \<noteq> Some issuer
            then Inl (JsonWebTokenError ''jwt issuer invalid'')
          else Inr c)"

text \<open>\<open>AuthService.generateToken\<close>: every throw inside the \<open>try\<close> becomes
  \<open>TOKEN_GENERATION_FAILED\<close>.\<close>

definition generateToken ::
  "externals \<Rightarrow> environment \<Rightarrow> timestamp \<Rightarrow> string \<times> string \<times> string \<Rightarrow> failure + token" where
  "generateToken X env now payload =
     (case getJwtSecret env of
        Inl e \<Rightarrow> Inl (AppError ''Token generation failed'' 500 TOKEN_GENERATION_FAILED)
      | Inr secret \<Rightarrow>
          (case jwt_sign X payload secret (getJwtExpiresIn env) (getJwtIssuer env)
                  (getJwtAudience env) now of
             Inl e \<Rightarrow> Inl (AppError ''Token generation failed'' 500 TOKEN_GENERATION_FAILED)
           | Inr tok \<Rightarrow> Inr tok))"

text \<open>
  \<open>AuthService.verifyToken\<close>: \<open>TokenExpiredError\<close> is tested first, then
  \<open>JsonWebTokenError\<close> (of which \<open>NotBeforeError\<close> is a subclass); anything else, such
  as the missing secret, is \<open>TOKEN_VERIFICATION_FAILED\<close>.
\<close>

definition verifyToken :: "environment \<Rightarrow> timestamp \<Rightarrow> token \<Rightarrow> failure + jwt_claims" where
  "verifyToken env now tok =
     (case getJwtSecret env of
        Inl e \<Rightarrow> Inl (AppError ''Token verification failed'' 401 TOKEN_VERIFICATION_FAILED)
      | Inr secret \<Rightarrow>
          (case jwt_verify tok secret (getJwtIssuer env) (getJwtAudience env) now of
             Inr decoded \<Rightarrow> Inr decoded
           | Inl TokenExpiredError \<Rightarrow> Inl (AppError ''Token expired'' 401 TOKEN_EXPIRED)
           | Inl NotBeforeError \<Rightarrow> Inl (AppError ''Invalid token'' 401 INVALID_TOKEN)
           | Inl (JsonWebTokenError m) \<Rightarrow> Inl (AppError ''Invalid token'' 401 INVALID_TOKEN)))"

text \<open>The \<open>{id, email, nickname}\<close> a decoded token carries.\<close>

definition payload_of :: "jwt_claims \<Rightarrow> string \<times> string \<times> string" where
  "payload_of c = (claim_id c, claim_email c, claim_nickname c)"

section \<open>Account documents (models/user.model.ts)\<close>

text \<open>
  A stored user document. A field that \<open>$unset\<close> can remove is an option: \<open>None\<close> is
  the absent field, which reads as the schema's default when the document is loaded.
  The collection is the list of its documents in insertion order.
\<close>

datatype role = RoleUser | RoleAdmin | RoleModerator

record user =
  user_id :: string
  email :: string
  password :: string
  nickname :: string
  isVerified :: bool
  user_role :: role
  backupCodes :: "string list"
  lastPasswordChange :: timestamp
  lastLoginAt :: "timestamp option"
  failedLoginAttempts :: "nat option"
  accountLocked :: "bool option"
  lockUntil :: "timestamp option"
  createdAt :: timestamp

definition MAX_LOGIN_ATTEMPTS :: nat where
  "MAX_LOGIN_ATTEMPTS = 5"

definition LOCK_TIME :: int where
  "LOCK_TIME = 2 * 60 * 60 * 1000"

text \<open>The loaded document's \<open>failedLoginAttempts\<close> (schema default 0) and
  \<open>accountLocked\<close> (schema default false).\<close>

definition loaded_failedLoginAttempts :: "user \<Rightarrow> nat" where
  "loaded_failedLoginAttempts u = (case failedLoginAttempts u of None \<Rightarrow> 0 | Some n \<Rightarrow> n)"

definition loaded_accountLocked :: "user \<Rightarrow> bool" where
  "loaded_accountLocked u = (case accountLocked u of None \<Rightarrow> False | Some b \<Rightarrow> b)"

text \<open>The virtual \<open>isLocked\<close> and the method \<open>isAccountLocked\<close>:
  \<open>!!(this.lockUntil && this.lockUntil > new Date())\<close>.\<close>

definition isLocked :: "timestamp \<Rightarrow> user \<Rightarrow> bool" where
  "isLocked now u = (case lockUntil u of None \<Rightarrow> False | Some t \<Rightarrow> now < t)"

definition isAccountLocked :: "timestamp \<Rightarrow> user \<Rightarrow> bool" where
  "isAccountLocked now u = (case lockUntil u of None \<Rightarrow> False | Some t \<Rightarrow> now < t)"

text \<open>
  \<open>incrementLoginAttempts\<close>, as the update it sends for the document it was called on.
  A lapsed lock: \<open>$unset\<close> of \<open>lockUntil\<close> and \<open>accountLocked\<close>, \<open>$set\<close> of the counter
  to 1. Otherwise \<open>$inc\<close> of the counter, with \<open>$set\<close> of the lock when the counter
  reaches the maximum and the account is not locked.
\<close>

definition incrementLoginAttempts :: "timestamp \<Rightarrow> user \<Rightarrow> user" where
  "incrementLoginAttempts now u =
     (if (case lockUntil u of None \<Rightarrow> False | Some t \<Rightarrow> t < now) then
        u\<lparr>lockUntil := None, accountLocked := None, failedLoginAttempts := Some 1\<rparr>
      else if MAX_LOGIN_ATTEMPTS \<le> loaded_failedLoginAttempts u + 1 \<and> \<not> isLocked now u then
        u\<lparr>failedLoginAttempts := Some (loaded_failedLoginAttempts u + 1),
          accountLocked := Some True, lockUntil := Some (now + LOCK_TIME)\<rparr>
      else
        u\<lparr>failedLoginAttempts := Some (loaded_failedLoginAttempts u + 1)\<rparr>)"

text \<open>\<open>resetLoginAttempts\<close>: \<open>$unset\<close> of the counter and the lock, \<open>$set\<close> of
  \<open>lastLoginAt\<close>.\<close>

definition resetLoginAttempts :: "timestamp \<Rightarrow> user \<Rightarrow> user" where
  "resetLoginAttempts now u =
     u\<lparr>failedLoginAttempts := None, lockUntil := None, accountLocked := None,
       lastLoginAt := Some now\<rparr>"

text \<open>\<open>doc.updateOne(update)\<close>: the update applies to the first stored document with
  the document's \<open>_id\<close>.\<close>

fun updateOne :: "string \<Rightarrow> (user \<Rightarrow> user) \<Rightarrow> user list \<Rightarrow> user list" where
  "updateOne i f [] = []"
| "updateOne i f (u # us) = (if user_id u = i then f u # us else u # updateOne i f us)"

text \<open>
  \<open>doc.save()\<close> of a loaded document sends, besides the paths the caller modified, the
  schema defaults that loading gave the document where the stored one lacked the field:
  \<open>failedLoginAttempts\<close> 0 and \<open>accountLocked\<close> false (a default of \<open>null\<close> is not
  sent). \<open>loaded\<close> is the stored document as it was read, \<open>d\<close> the stored document at
  the time of the write. The schema sets \<open>versionKey: false\<close>, so the write is not
  conditional on what was read.
\<close>

definition save_defaults :: "user \<Rightarrow> user \<Rightarrow> user" where
  "save_defaults loaded d =
     d\<lparr>failedLoginAttempts :=
         (case failedLoginAttempts loaded of None \<Rightarrow> Some 0 | Some n \<Rightarrow> failedLoginAttempts d),
       accountLocked :=
         (case accountLocked loaded of None \<Rightarrow> Some False | Some b \<Rightarrow> accountLocked d)\<rparr>"

definition findById :: "string \<Rightarrow> user list \<Rightarrow> user option" where
  "findById i us = find (\<lambda>u. user_id u = i) us"

definition findByEmail :: "string \<Rightarrow> user list \<Rightarrow> user option" where
  "findByEmail e us = find (\<lambda>u. email u = e) us"

definition findByNickname :: "string \<Rightarrow> user list \<Rightarrow> user option" where
  "findByNickname n us = find (\<lambda>u. nickname u = n) us"

text \<open>The method \<open>comparePassword\<close>: a document without its password throws inside the
  \<open>try\<close>, which returns false.\<close>

definition comparePassword :: "externals \<Rightarrow> user \<Rightarrow> string \<Rightarrow> bool" where
  "comparePassword X u candidate =
     (if password u = [] then False else bcrypt_compare X candidate (password u))"

text \<open>
  The static \<open>findByCredentials\<close>: the result (a thrown error, \<open>null\<close> or the loaded
  document) and the collection afterwards.
\<close>

definition findByCredentials ::
  "externals \<Rightarrow> timestamp \<Rightarrow> user list \<Rightarrow> string \<Rightarrow> string \<Rightarrow>
   (failure + user option) \<times> user list" where
  "findByCredentials X now users em pw =
     (case findByEmail (trim X (toLowerCase X em)) users of
        None \<Rightarrow> (Inr None, users)
      | Some u \<Rightarrow>
          if isAccountLocked now u then (Inl (Error ''ACCOUNT_LOCKED''), users)
          else if \<not> comparePassword X u pw then
            (Inr None, updateOne (user_id u) (incrementLoginAttempts now) users)
          else
            (Inr (Some u), updateOne (user_id u) (resetLoginAttempts now) users))"

section \<open>The authentication service (auth/services/auth.service.ts)\<close>

record sanitized_user =
  su_id :: string
  su_email :: string
  su_nickname :: string
  su_isVerified :: bool
  su_createdAt :: timestamp
  su_lastPasswordChange :: timestamp

definition sanitizeUser :: "user \<Rightarrow> sanitized_user" where
  "sanitizeUser u =
     \<lparr>su_id = user_id u, su_email = email u, su_nickname = nickname u,
      su_isVerified = isVerified u, su_createdAt = createdAt u,
      su_lastPasswordChange = lastPasswordChange u\<rparr>"

definition normalizeEmail :: "externals \<Rightarrow> string \<Rightarrow> string" where
  "normalizeEmail X e = trim X (toLowerCase X e)"

definition normalizeNickname :: "externals \<Rightarrow> string \<Rightarrow> string" where
  "normalizeNickname X n = trim X n"

definition normalizePassword :: "externals \<Rightarrow> string \<Rightarrow> string" where
  "normalizePassword X p = nfkc X p"

text \<open>\<open>AuthService.comparePasswords\<close>.\<close>

definition comparePasswords :: "externals \<Rightarrow> string \<Rightarrow> string \<Rightarrow> bool" where
  "comparePasswords X candidate hashed = bcrypt_compare X candidate hashed"

text \<open>
  \<open>AuthService.loginUser\<close>: the result and the collection afterwards. The function
  sends no update, so the collection it returns is the one it was given.
\<close>

definition loginUser ::
  "externals \<Rightarrow> environment \<Rightarrow> timestamp \<Rightarrow> user list \<Rightarrow> string \<Rightarrow> string \<Rightarrow>
   (failure + sanitized_user \<times> token) \<times> user list" where
  "loginUser X env now users em pw =
     (case findByEmail (normalizeEmail X em) users of
        None \<Rightarrow> (Inl (AppError ''Invalid credentials'' 401 INVALID_CREDENTIALS), users)
      | Some u \<Rightarrow>
          if \<not> comparePasswords X (normalizePassword X pw) (password u) then
            (Inl (AppError ''Invalid credentials'' 401 INVALID_CREDENTIALS), users)
          else
            (case generateToken X env now (user_id u, email u, nickname u) of
               Inl e \<Rightarrow> (Inl e, users)
             | Inr tok \<Rightarrow> (Inr (sanitizeUser u, tok), users)))"

text \<open>\<open>SecurityUtils.validatePasswordStrength\<close>: the regular expressions are single
  character classes, so each test asks whether some character is in the class.\<close>

definition upper_chars :: "char list" where
  "upper_chars = ''ABCDEFGHIJKLMNOPQRSTUVWXYZ''"

definition lower_chars :: "char list" where
  "lower_chars = ''abcdefghijklmnopqrstuvwxyz''"

definition digit_chars :: "char list" where
  "digit_chars = ''0123456789''"

definition special_chars :: "char list" where
  "special_chars = ''!@#$%^&*()_+-=[]{};:|,.<>/?'' @ [CHR 0x27, CHR 0x22, CHR 0x5C]"

definition validatePasswordStrength :: "environment \<Rightarrow> string \<Rightarrow> bool" where
  "validatePasswordStrength env p =
     (if length p < getPasswordMinLength env then False
      else if getPasswordRequireUppercase env \<and> \<not> (\<exists>c \<in> set p. c \<in> set upper_chars) then False
      else if \<not> (\<exists>c \<in> set p. c \<in> set lower_chars) then False
      else if getPasswordRequireNumber env \<and> \<not> (\<exists>c \<in> set p. c \<in> set digit_chars) then False
      else if getPasswordRequireSpecialChar env \<and> \<not> (\<exists>c \<in> set p. c \<in> set special_chars)
        then False
      else True)"

text \<open>The whitespace \<open>\s\<close> matches, among the code units a \<open>char\<close> can hold.\<close>

definition space_chars :: "char list" where
  "space_chars = [CHR 0x09, CHR 0x0A, CHR 0x0B, CHR 0x0C, CHR 0x0D, CHR 0x20, CHR 0xA0]"

definition plain_char :: "char \<Rightarrow> bool" where
  "plain_char c = (c \<notin> set space_chars \<and> c \<noteq> CHR ''@'')"

text \<open>
  \<open>isValidEmail\<close>, the expression \<open>^[^\s@]+@[^\s@]+\.[^\s@]+$\<close>: a non-empty local part,
  one \<open>@\<close>, and a domain with a dot that is neither its first nor its last character;
  no whitespace anywhere.
\<close>

definition isValidEmail :: "string \<Rightarrow> bool" where
  "isValidEmail e =
     (let loc = takeWhile (\<lambda>c. c \<noteq> CHR ''@'') e; rest = dropWhile (\<lambda>c. c \<noteq> CHR ''@'') e
      in loc \<noteq> [] \<and> list_all plain_char loc \<and>
         (case rest of
            [] \<Rightarrow> False
          | a # dmn \<Rightarrow> list_all plain_char dmn \<and> CHR ''.'' \<in> set (butlast (tl dmn))))"

text \<open>\<open>isValidNickname\<close>, the expression \<open>^[a-zA-Z0-9_]{3,30}$\<close>.\<close>

definition isValidNickname :: "string \<Rightarrow> bool" where
  "isValidNickname n =
     (3 \<le> length n \<and> length n \<le> 30 \<and>
      list_all (\<lambda>c. c \<in> set lower_chars \<or> c \<in> set upper_chars \<or> c \<in> set digit_chars
                  \<or> c = CHR ''_'') n)"

text \<open>The schema's validators of the three paths, run on save before the hooks.\<close>

definition valid_email_path :: "string \<Rightarrow> bool" where
  "valid_email_path e = (e \<noteq> [] \<and> length e \<le> 254 \<and> isValidEmail e)"

definition valid_password_path :: "environment \<Rightarrow> string \<Rightarrow> bool" where
  "valid_password_path env p =
     (p \<noteq> [] \<and> 8 \<le> length p \<and> length p \<le> 128 \<and> validatePasswordStrength env p)"

definition valid_nickname_path :: "string \<Rightarrow> bool" where
  "valid_nickname_path n = (n \<noteq> [] \<and> 3 \<le> length n \<and> length n \<le> 30 \<and> isValidNickname n)"

text \<open>
  \<open>User.create({email, password, nickname})\<close> with the schema's defaults: the setters
  (\<open>lowercase\<close>, \<open>trim\<close>), the validation, the hook that hashes the password and stamps
  \<open>lastPasswordChange\<close>, the hook that normalises email and nickname, and the unique
  indexes on \<open>_id\<close>, email and nickname. \<open>new_id\<close> is the \<open>_id\<close> the driver draws and
  \<open>salt\<close> the salt bcrypt draws.
\<close>

definition User_create ::
  "externals \<Rightarrow> environment \<Rightarrow> timestamp \<Rightarrow> string \<Rightarrow> string \<Rightarrow> user list \<Rightarrow>
   string \<times> string \<times> string \<Rightarrow> failure + user \<times> user list" where
  "User_create X env now new_id salt users input =
     (case input of (em, pw, nick) \<Rightarrow>
        (let em1 = trim X (toLowerCase X em); nick1 = trim X nick in
         if \<not> (valid_email_path em1 \<and> valid_password_path env pw \<and> valid_nickname_path nick1)
           then Inl (Error ''ValidationError'')
         else
           (let doc =
              \<lparr>user_id = new_id,
               email = trim X (toLowerCase X em1),
               password = bcrypt_hash X pw (getPasswordSaltRounds env) salt,
               nickname = trim X nick1,
               isVerified = False,
               user_role = RoleUser,
               backupCodes = [],
               lastPasswordChange = now,
               lastLoginAt = None,
               failedLoginAttempts = Some 0,
               accountLocked = Some False,
               lockUntil = None,
               createdAt = now\<rparr>
            in if findById new_id users \<noteq> None \<or> findByEmail (email doc) users \<noteq> None
                  \<or> findByNickname (nickname doc) users \<noteq> None
                 then Inl (Error ''MongoServerError'')
               else Inr (doc, users @ [doc]))))"

text \<open>\<open>AuthService.createUser\<close>: an \<open>AppError\<close> is rethrown, any other error becomes
  \<open>USER_CREATION_FAILED\<close>.\<close>

definition createUser ::
  "externals \<Rightarrow> environment \<Rightarrow> timestamp \<Rightarrow> string \<Rightarrow> string \<Rightarrow> user list \<Rightarrow>
   string \<times> string \<times> string \<Rightarrow> (failure + sanitized_user) \<times> user list" where
  "createUser X env now new_id salt users userData =
     (case userData of (em, pw, nick) \<Rightarrow>
        (let normalizedEmail = normalizeEmail X em;
             normalizedNickname = normalizeNickname X nick in
         if findByEmail normalizedEmail users \<noteq> None then
           (Inl (AppError ''Email already registered'' 409 EMAIL_EXISTS), users)
         else if findByNickname normalizedNickname users \<noteq> None then
           (Inl (AppError ''Nickname already taken'' 409 NICKNAME_EXISTS), users)
         else if \<not> validatePasswordStrength env pw then
           (Inl (AppError ''Password does not meet strength requirements'' 400 WEAK_PASSWORD),
            users)
         else
           (case User_create X env now new_id salt users
                   (normalizedEmail, normalizePassword X pw, normalizedNickname) of
              Inl e \<Rightarrow> (Inl (AppError ''User creation failed'' 500 USER_CREATION_FAILED), users)
            | Inr (doc, users') \<Rightarrow> (Inr (sanitizeUser doc), users'))))"

text \<open>
  \<open>user.password = newPassword; await user.save()\<close>, as the recovery and password
  controllers do it: the password path is validated, then hashed by the hook.
\<close>

definition savePassword ::
  "externals \<Rightarrow> environment \<Rightarrow> timestamp \<Rightarrow> string \<Rightarrow> string \<Rightarrow> user \<Rightarrow> failure + user" where
  "savePassword X env now salt newPassword u =
     (if \<not> valid_password_path env newPassword then Inl (Error ''ValidationError'')
      else Inr (u\<lparr>password := bcrypt_hash X newPassword (getPasswordSaltRounds env) salt,
                  lastPasswordChange := now\<rparr>))"

section \<open>The recovery service (auth/services/recovery.service.ts)\<close>

text \<open>
  A stored recovery code (models/recovery-code.model.ts); the collection is the list of
  its documents in insertion order. The random source is the stream of bytes that
  \<open>crypto.randomBytes\<close> reads; a call takes its bytes from an offset.
\<close>

record recovery_code =
  rc_userId :: string
  rc_code :: string
  rc_used :: bool
  rc_expiresAt :: timestamp

type_synonym random_source = "nat \<Rightarrow> 8 word"

definition randomBytes :: "random_source \<Rightarrow> nat \<Rightarrow> nat \<Rightarrow> 8 word list" where
  "randomBytes src off n = map src [off ..< off + n]"

text \<open>\<open>buffer.toString('hex').toUpperCase()\<close>.\<close>

definition hex_digit_upper :: "nat \<Rightarrow> char" where
  "hex_digit_upper d = ''0123456789ABCDEF'' ! (d mod 16)"

definition hex_upper :: "8 word list \<Rightarrow> string" where
  "hex_upper bs =
     concat (map (\<lambda>b. [hex_digit_upper (unat b div 16), hex_digit_upper (unat b mod 16)]) bs)"

text \<open>\<open>Model.findOneAndDelete(filter)\<close>: the first document that matches, and the
  collection without it.\<close>

fun findOneAndDelete :: "('a \<Rightarrow> bool) \<Rightarrow> 'a list \<Rightarrow> 'a option \<times> 'a list" where
  "findOneAndDelete p [] = (None, [])"
| "findOneAndDelete p (x # xs) =
     (if p x then (Some x, xs)
      else (case findOneAndDelete p xs of (r, ys) \<Rightarrow> (r, x # ys)))"

definition generateRecoveryCode ::
  "externals \<Rightarrow> random_source \<Rightarrow> timestamp \<Rightarrow> recovery_code list \<Rightarrow> string \<Rightarrow>
   string \<times> recovery_code list" where
  "generateRecoveryCode X src now codes userId =
     (let remaining = filter (\<lambda>r. rc_userId r \<noteq> userId) codes;
          code = hex_upper (randomBytes src 0 3);
          hashedCode = sha256_hex X code
      in (code,
          remaining @
            [\<lparr>rc_userId = userId, rc_code = hashedCode, rc_used = False,
              rc_expiresAt = now + 15 * 60 * 1000\<rparr>]))"

definition live_match :: "externals \<Rightarrow> timestamp \<Rightarrow> string \<Rightarrow> string \<Rightarrow> recovery_code \<Rightarrow> bool" where
  "live_match X now userId code r =
     (rc_userId r = userId \<and> rc_code r = sha256_hex X code \<and> now < rc_expiresAt r)"

definition verifyRecoveryCode ::
  "externals \<Rightarrow> timestamp \<Rightarrow> recovery_code list \<Rightarrow> string \<Rightarrow> string \<Rightarrow>
   bool \<times> recovery_code list" where
  "verifyRecoveryCode X now codes userId code =
     (case findOneAndDelete (live_match X now userId code) codes of
        (None, codes') \<Rightarrow> (False, codes')
      | (Some r, codes') \<Rightarrow> (True, codes'))"

text \<open>
  \<open>validateRecoveryCode\<close>: the same \<open>findOneAndDelete\<close>. On no match it calls
  \<open>logger.warn\<close> on the default import of utils/logger, which has no default export, so
  the call throws a \<open>TypeError\<close> instead of returning false.
\<close>

definition validateRecoveryCode ::
  "externals \<Rightarrow> timestamp \<Rightarrow> recovery_code list \<Rightarrow> string \<Rightarrow> string \<Rightarrow>
   (failure + bool) \<times> recovery_code list" where
  "validateRecoveryCode X now codes userId code =
     (case findOneAndDelete (live_match X now userId code) codes of
        (None, codes') \<Rightarrow>
          (Inl (Error ''TypeError: Cannot read properties of undefined''), codes')
      | (Some r, codes') \<Rightarrow> (Inr True, codes'))"

text \<open>\<open>generateBackupCodes\<close>: five codes of eight random bytes each;
  \<open>findByIdAndUpdate\<close> replaces the array of the first document with the id.\<close>

definition generateBackupCodes ::
  "externals \<Rightarrow> random_source \<Rightarrow> user list \<Rightarrow> string \<Rightarrow> string list \<times> user list" where
  "generateBackupCodes X src users userId =
     (let codes = map (\<lambda>k. hex_upper (randomBytes src (8 * k) 8)) [0 ..< 5]
      in (codes, updateOne userId (\<lambda>u. u\<lparr>backupCodes := map (sha256_hex X) codes\<rparr>) users))"

text \<open>\<open>Array.prototype.indexOf\<close> (\<open>None\<close> for -1) and \<open>splice(index, 1)\<close>.\<close>

fun indexOf :: "'a \<Rightarrow> 'a list \<Rightarrow> nat option" where
  "indexOf x [] = None"
| "indexOf x (y # ys) = (if y = x then Some 0 else map_option Suc (indexOf x ys))"

definition splice1 :: "nat \<Rightarrow> 'a list \<Rightarrow> 'a list" where
  "splice1 i xs = take i xs @ drop (Suc i) xs"

text \<open>
  \<open>validateBackupCode\<close> reads, decides and writes in three steps, and other requests can
  run between them. The read is \<open>User.findById(userId).select('+backupCodes')\<close>. The
  decision is on the loaded document: \<open>indexOf\<close> of the hash, and \<open>splice\<close> of the loaded
  array when it is found (\<open>None\<close>: the call returns false and writes nothing). The write
  is \<open>user.save()\<close>: it sets the stored array to the loaded array after the splice,
  whatever the stored array holds by then, and sends the defaults of \<open>save_defaults\<close>.
\<close>

definition validateBackupCode_load :: "user list \<Rightarrow> string \<Rightarrow> user option" where
  "validateBackupCode_load users userId = findById userId users"

definition validateBackupCode_splice :: "externals \<Rightarrow> user \<Rightarrow> string \<Rightarrow> string list option" where
  "validateBackupCode_splice X loaded code =
     (let hashedCode = sha256_hex X code in
      case indexOf hashedCode (backupCodes loaded) of
        None \<Rightarrow> None
      | Some i \<Rightarrow> Some (splice1 i (backupCodes loaded)))"

definition validateBackupCode_save :: "user \<Rightarrow> string list \<Rightarrow> user list \<Rightarrow> user list" where
  "validateBackupCode_save loaded codes users =
     updateOne (user_id loaded) (\<lambda>d. (save_defaults loaded d)\<lparr>backupCodes := codes\<rparr>) users"

text \<open>\<open>validateBackupCode\<close> run from its read to its write with no other request in
  between.\<close>

definition validateBackupCode ::
  "externals \<Rightarrow> user list \<Rightarrow> string \<Rightarrow> string \<Rightarrow> bool \<times> user list" where
  "validateBackupCode X users userId code =
     (case validateBackupCode_load users userId of
        None \<Rightarrow> (False, users)
      | Some u \<Rightarrow>
          (case validateBackupCode_splice X u code of
             None \<Rightarrow> (False, users)
           | Some codes \<Rightarrow> (True, validateBackupCode_save u codes users)))"

section \<open>The recovery controller (auth/controllers/recovery.controller.ts)\<close>

text \<open>
  The server's state: both collections and the mail handed to the mail service. A
  handler returns the response it sends (status and JSON body) or the error it passes
  on, and the state afterwards. \<open>mail_ok\<close> says whether the mail service accepts the
  message.
\<close>

record app_state =
  users :: "user list"
  recovery_codes :: "recovery_code list"
  outbox :: "(string \<times> string) list"

record json_body =
  success :: bool
  message :: string

type_synonym response = "nat \<times> json_body"

text \<open>
  \<open>initPasswordReset\<close>: \<open>em\<close> is \<open>req.body.email\<close> as the route's sanitizer left it.
  \<open>User.findOne({ email })\<close> casts the filter through the schema's setters
  (\<open>lowercase\<close>, \<open>trim\<close>) before it looks the email up.
\<close>

definition initPasswordReset ::
  "externals \<Rightarrow> random_source \<Rightarrow> timestamp \<Rightarrow> bool \<Rightarrow> app_state \<Rightarrow> string \<Rightarrow>
   (failure + response) \<times> app_state" where
  "initPasswordReset X src now mail_ok st em =
     (case findByEmail (trim X (toLowerCase X em)) (users st) of
        None \<Rightarrow>
          (Inr (200, \<lparr>success = True,
                      message = ''If the email exists, a recovery code has been sent''\<rparr>), st)
      | Some u \<Rightarrow>
          (case generateRecoveryCode X src now (recovery_codes st) (user_id u) of
             (code, codes') \<Rightarrow>
               if \<not> mail_ok then
                 (Inl (Error ''EmailService: password reset send failed''),
                  st\<lparr>recovery_codes := codes'\<rparr>)
               else
                 (Inr (200, \<lparr>success = True, message = ''Recovery code sent to email''\<rparr>),
                  st\<lparr>recovery_codes := codes', outbox := outbox st @ [(email u, code)]\<rparr>)))"

text \<open>\<open>useBackupCode\<close>: \<open>req_user\<close> is \<open>req.user\<close>, set for an authenticated request.\<close>

definition useBackupCode ::
  "externals \<Rightarrow> timestamp \<Rightarrow> app_state \<Rightarrow> user option \<Rightarrow> string \<Rightarrow>
   (failure + response) \<times> app_state" where
  "useBackupCode X now st req_user code =
     (case req_user of
        None \<Rightarrow> (Inl (Error ''User not authenticated''), st)
      | Some u \<Rightarrow>
          (case verifyRecoveryCode X now (recovery_codes st) (user_id u) code of
             (isValid, codes') \<Rightarrow>
               if \<not> isValid then
                 (Inl (Error ''Invalid backup code''), st\<lparr>recovery_codes := codes'\<rparr>)
               else
                 (Inr (200, \<lparr>success = True, message = ''Backup code verified''\<rparr>),
                  st\<lparr>recovery_codes := codes'\<rparr>)))"

section \<open>Reachable states and operations on accounts\<close>

text \<open>The recovery-code collections the service can produce, starting from the empty
  collection: its three functions are the only writers of the collection.\<close>

inductive reachable_codes :: "externals \<Rightarrow> recovery_code list \<Rightarrow> bool" for X where
  reach_empty: "reachable_codes X []"
| reach_generate:
    "reachable_codes X cs \<Longrightarrow> reachable_codes X (snd (generateRecoveryCode X src now cs userId))"
| reach_verify:
    "reachable_codes X cs \<Longrightarrow> reachable_codes X (snd (verifyRecoveryCode X now cs userId code))"
| reach_validate:
    "reachable_codes X cs \<Longrightarrow> reachable_codes X (snd (validateRecoveryCode X now cs userId code))"

text \<open>
  The operations of the repository that write user documents, each with its arguments:
  the two lockout transitions, \<open>findByCredentials\<close>, \<open>loginUser\<close>, \<open>createUser\<close>, the
  password save of the recovery and password controllers, the nickname update of
  \<open>updateProfile\<close>, and the two backup-code functions.
\<close>

datatype account_op =
    IncrementLoginAttempts string timestamp
  | ResetLoginAttempts string timestamp
  | FindByCredentials timestamp string string
  | LoginUser timestamp string string
  | CreateUser timestamp string string string string string
  | SavePassword string timestamp string string
  | UpdateNickname string string
  | ValidateBackupCode string string
  | GenerateBackupCodes string random_source

text \<open>
  The password save on the stored collection, run from its read to its write: the write
  sends the new hash, \<open>lastPasswordChange\<close> and the defaults of \<open>save_defaults\<close>.
\<close>

definition savePasswordById ::
  "externals \<Rightarrow> environment \<Rightarrow> timestamp \<Rightarrow> string \<Rightarrow> string \<Rightarrow> string \<Rightarrow> user list \<Rightarrow>
   user list" where
  "savePasswordById X env now salt newPassword userId us =
     (case findById userId us of
        None \<Rightarrow> us
      | Some u \<Rightarrow>
          (case savePassword X env now salt newPassword u of
             Inl e \<Rightarrow> us
           | Inr u' \<Rightarrow>
               updateOne userId
                 (\<lambda>d. (save_defaults u d)\<lparr>password := password u',
                        lastPasswordChange := lastPasswordChange u'\<rparr>)
                 us))"

fun account_step :: "externals \<Rightarrow> environment \<Rightarrow> account_op \<Rightarrow> user list \<Rightarrow> user list" where
  "account_step X env (IncrementLoginAttempts i now) us =
     updateOne i (incrementLoginAttempts now) us"
| "account_step X env (ResetLoginAttempts i now) us = updateOne i (resetLoginAttempts now) us"
| "account_step X env (FindByCredentials now em pw) us = snd (findByCredentials X now us em pw)"
| "account_step X env (LoginUser now em pw) us = snd (loginUser X env now us em pw)"
| "account_step X env (CreateUser now new_id salt em pw nick) us =
     snd (createUser X env now new_id salt us (em, pw, nick))"
| "account_step X env (SavePassword i now salt pw) us = savePasswordById X env now salt pw i us"
| "account_step X env (UpdateNickname i n) us = updateOne i (\<lambda>d. d\<lparr>nickname := trim X n\<rparr>) us"
| "account_step X env (ValidateBackupCode i code) us = snd (validateBackupCode X us i code)"
| "account_step X env (GenerateBackupCodes i src) us = snd (generateBackupCodes X src us i)"

fun is_generate :: "account_op \<Rightarrow> bool" where
  "is_generate (GenerateBackupCodes i src) = True"
| "is_generate opn = False"

fun run_ops :: "externals \<Rightarrow> environment \<Rightarrow> account_op list \<Rightarrow> user list \<Rightarrow> user list" where
  "run_ops X env [] us = us"
| "run_ops X env (opn # ops) us = run_ops X env ops (account_step X env opn us)"

section \<open>A concrete instance\<close>

text \<open>
  An instance of the primitives, an environment and an account, on which the model is
  evaluated. \<open>toLowerCase\<close> and \<open>trim\<close> are the built-ins on ASCII; \<open>nfkc\<close> maps the
  feminine ordinal indicator U+00AA to the letter a, as NFKC does; the two hash
  functions are injective stand-ins (\<open>bcrypt_hash\<close> writes the salt, a \<open>$\<close> and the
  plaintext).
\<close>

definition ascii_lower :: "char \<Rightarrow> char" where
  "ascii_lower c = (if c \<in> set upper_chars then char_of (of_char c + (32::nat)) else c)"

definition trim_spaces :: "string \<Rightarrow> string" where
  "trim_spaces s =
     rev (dropWhile (\<lambda>c. c \<in> set space_chars) (rev (dropWhile (\<lambda>c. c \<in> set space_chars) s)))"

definition test_externals :: externals where
  "test_externals =
     \<lparr>nfkc = map (\<lambda>c. if c = CHR 0xAA then CHR ''a'' else c),
      toLowerCase = map ascii_lower,
      trim = trim_spaces,
      sha256_hex = (\<lambda>s. ''sha256:'' @ s),
      bcrypt_hash = (\<lambda>p rounds salt. salt @ ''$'' @ p),
      bcrypt_compare = (\<lambda>p h. dropWhile (\<lambda>c. c \<noteq> CHR ''$'') h = CHR ''$'' # p),
      timespan = (\<lambda>s. if s = ''7d'' then Some 604800 else None)\<rparr>"

definition test_env :: environment where
  "test_env =
     \<lparr>JWT_SECRET = Some ''s3cret'', JWT_EXPIRES_IN = None, JWT_ISSUER = None,
      JWT_AUDIENCE = None, BCRYPT_SALT_ROUNDS = None, PASSWORD_MIN_LENGTH = None,
      PASSWORD_REQUIRE_SPECIAL_CHAR = None, PASSWORD_REQUIRE_NUMBER = None,
      PASSWORD_REQUIRE_UPPERCASE = None\<rparr>"

definition alice :: user where
  "alice =
     \<lparr>user_id = ''u1'', email = ''alice@example.com'', password = ''salt$Str0ng!Pass'',
      nickname = ''alice_01'', isVerified = False, user_role = RoleUser, backupCodes = [],
      lastPasswordChange = 0, lastLoginAt = None, failedLoginAttempts = Some 0,
      accountLocked = Some False, lockUntil = None, createdAt = 0\<rparr>"

definition locked_alice :: user where
  "locked_alice =
     alice\<lparr>failedLoginAttempts := Some 5, accountLocked := Some True,
           lockUntil := Some 7200000\<rparr>"

definition test_source :: random_source where
  "test_source = (\<lambda>n. of_nat (n * 37 + 161))"

definition alice_code :: recovery_code where
  "alice_code =
     \<lparr>rc_userId = ''u1'', rc_code = ''sha256:A1C6EB'', rc_used = False,
      rc_expiresAt = 901000\<rparr>"

definition lapsed_alice :: user where
  "lapsed_alice =
     alice\<lparr>failedLoginAttempts := Some 3, accountLocked := Some True, lockUntil := Some 500\<rparr>"

definition test_state :: app_state where
  "test_state =
     \<lparr>users = [alice\<lparr>backupCodes := [''sha256:0123456789ABCDEF'']\<rparr>],
      recovery_codes = [alice_code],
      outbox = []\<rparr>"

definition alice_token :: token where
  "alice_token =
     Signed ''s3cret''
       \<lparr>claim_id = ''u1'', claim_email = ''alice@example.com'',
        claim_nickname = ''alice_01'', claim_iat = 1, claim_exp = Some 604801,
        claim_iss = Some ''astrolune-api'', claim_aud = Some ''astrolune-client''\<rparr>"

definition backup_alice :: user where
  "backup_alice =
     alice\<lparr>backupCodes := [''sha256:0123456789ABCDEF'', ''sha256:FEDCBA9876543210'']\<rparr>"

definition typed_password :: string where
  "typed_password = ''Str0ng!P'' @ [CHR 0xAA] @ ''ss''"

definition bob :: user where
  "bob =
     \<lparr>user_id = ''u2'', email = ''bob@example.com'', password = ''salt$Str0ng!Pass'',
      nickname = ''bob_02'', isVerified = False, user_role = RoleUser, backupCodes = [],
      lastPasswordChange = 1000, lastLoginAt = None, failedLoginAttempts = Some 0,
      accountLocked = Some False, lockUntil = None, createdAt = 1000\<rparr>"

section \<open>Facts about the collections\<close>

lemma findOneAndDelete_find:
  "findOneAndDelete p xs =
     (find p xs, (case find p xs of None \<Rightarrow> xs | Some x \<Rightarrow> remove1 x xs))"
proof (induction xs)
  case Nil
  then show ?case by simp
next
  case (Cons a xs)
  show ?case
  proof (cases "p a")
    case True
    then show ?thesis by simp
  next
    case False
    show ?thesis
    proof (cases "find p xs")
      case None
      with False Cons show ?thesis by simp
    next
      case (Some x)
      then have "p x" by (auto simp: find_Some_iff)
      with False have "a \<noteq> x" by blast
      with False Some Cons show ?thesis by simp
    qed
  qed
qed

lemma filter_filter_length: "length (filter p (filter q xs)) \<le> length (filter p xs)"
  by (induction xs) auto

lemma filter_remove1_length: "length (filter p (remove1 x xs)) \<le> length (filter p xs)"
  by (induction xs) auto

lemma filter_le_one_unique:
  "length (filter p xs) \<le> 1 \<Longrightarrow> x \<in> set xs \<Longrightarrow> p x \<Longrightarrow> y \<in> set xs \<Longrightarrow> p y \<Longrightarrow> x = y"
proof (induction xs)
  case Nil
  then show ?case by simp
next
  case (Cons a xs)
  show ?case
  proof (cases "p a")
    case True
    with Cons.prems(1) have "filter p xs = []" by simp
    then have none: "\<forall>z \<in> set xs. \<not> p z" by (simp add: filter_empty_conv)
    with Cons.prems True show ?thesis by auto
  next
    case False
    with Cons show ?thesis by auto
  qed
qed

lemma filter_le_one_removed:
  "length (filter p xs) \<le> 1 \<Longrightarrow> x \<in> set xs \<Longrightarrow> p x \<Longrightarrow> y \<in> set (remove1 x xs) \<Longrightarrow> \<not> p y"
proof (induction xs)
  case Nil
  then show ?case by simp
next
  case (Cons a xs)
  show ?case
  proof (cases "p a")
    case True
    with Cons.prems(1) have "filter p xs = []" by simp
    then have none: "\<forall>z \<in> set xs. \<not> p z" by (simp add: filter_empty_conv)
    with Cons.prems True show ?thesis by (auto split: if_splits)
  next
    case False
    with Cons show ?thesis by (auto split: if_splits)
  qed
qed

lemma verifyRecoveryCode_find:
  "verifyRecoveryCode X now cs uid c =
     (case find (live_match X now uid c) cs of
        None \<Rightarrow> (False, cs)
      | Some r \<Rightarrow> (True, remove1 r cs))"
  by (simp add: verifyRecoveryCode_def findOneAndDelete_find split: option.splits)

lemma validateRecoveryCode_find:
  "validateRecoveryCode X now cs uid c =
     (case find (live_match X now uid c) cs of
        None \<Rightarrow> (Inl (Error ''TypeError: Cannot read properties of undefined''), cs)
      | Some r \<Rightarrow> (Inr True, remove1 r cs))"
  by (simp add: validateRecoveryCode_def findOneAndDelete_find split: option.splits)

text \<open>Every reachable collection holds at most one recovery code per account.\<close>

lemma reachable_one_per_user:
  "reachable_codes X cs \<Longrightarrow> length (filter (\<lambda>r. rc_userId r = uid) cs) \<le> 1"
proof (induction rule: reachable_codes.induct)
  case reach_empty
  then show ?case by simp
next
  case (reach_generate cs src now userId)
  have "length (filter (\<lambda>r. rc_userId r = uid) (filter (\<lambda>r. rc_userId r \<noteq> userId) cs)) \<le> 1"
    using reach_generate.IH by (rule le_trans [OF filter_filter_length])
  moreover have "uid = userId \<Longrightarrow>
      filter (\<lambda>r. rc_userId r = uid) (filter (\<lambda>r. rc_userId r \<noteq> userId) cs) = []"
    by (simp add: filter_empty_conv)
  ultimately show ?case
    by (simp add: generateRecoveryCode_def Let_def del: filter_filter)
next
  case (reach_verify cs now userId code)
  then show ?case
    by (auto simp: verifyRecoveryCode_find split: option.splits
        intro: le_trans [OF filter_remove1_length])
next
  case (reach_validate cs now userId code)
  then show ?case
    by (auto simp: validateRecoveryCode_find split: option.splits
        intro: le_trans [OF filter_remove1_length])
qed

lemma findById_updateOne:
  assumes "\<And>d. user_id (f d) = user_id d"
  shows "findById a (updateOne i f us) =
           (if a = i then map_option f (findById a us) else findById a us)"
  using assms by (induction us) (auto simp: findById_def)

lemma findById_append:
  "findById a us = Some u \<Longrightarrow> findById a (us @ vs) = Some u"
  by (induction us) (auto simp: findById_def split: if_splits)

lemma findById_distinct:
  "distinct (map user_id us) \<Longrightarrow> u \<in> set us \<Longrightarrow> findById (user_id u) us = Some u"
  by (induction us) (auto simp: findById_def)

lemma findByEmail_append_new:
  "findByEmail e us = None \<Longrightarrow> email d = e \<Longrightarrow> findByEmail e (us @ [d]) = Some d"
  by (induction us) (auto simp: findByEmail_def split: if_splits)

lemma findByEmail_member: "findByEmail e us = Some u \<Longrightarrow> u \<in> set us"
  by (auto simp: findByEmail_def find_Some_iff)

lemma indexOf_None_iff: "indexOf x xs = None \<longleftrightarrow> x \<notin> set xs"
  by (induction xs) auto

lemma splice1_indexOf: "indexOf x xs = Some i \<Longrightarrow> splice1 i xs = remove1 x xs"
proof (induction xs arbitrary: i)
  case Nil
  then show ?case by simp
next
  case (Cons y ys)
  show ?case
  proof (cases "y = x")
    case True
    with Cons.prems show ?thesis by (simp add: splice1_def)
  next
    case False
    with Cons.prems obtain j where j: "indexOf x ys = Some j" and i: "i = Suc j"
      by auto
    from Cons.IH [OF j] have "take j ys @ drop (Suc j) ys = remove1 x ys"
      by (simp add: splice1_def)
    with False i show ?thesis by (simp add: splice1_def)
  qed
qed

lemma incrementLoginAttempts_frame:
  "user_id (incrementLoginAttempts now d) = user_id d"
  "backupCodes (incrementLoginAttempts now d) = backupCodes d"
  by (simp_all add: incrementLoginAttempts_def)

lemma resetLoginAttempts_frame:
  "user_id (resetLoginAttempts now d) = user_id d"
  "backupCodes (resetLoginAttempts now d) = backupCodes d"
  by (simp_all add: resetLoginAttempts_def)

lemma updateOne_keeps_backupCodes:
  assumes "\<And>d. user_id (f d) = user_id d" and "\<And>d. backupCodes (f d) = backupCodes d"
    and "findById a us = Some u"
  shows "\<exists>u'. findById a (updateOne i f us) = Some u' \<and> backupCodes u' = backupCodes u"
  using assms by (auto simp: findById_updateOne)

lemma shrinks_if_kept:
  "\<exists>u'. findById a vs = Some u' \<and> backupCodes u' = backupCodes u \<Longrightarrow>
   \<exists>u'. findById a vs = Some u' \<and> mset (backupCodes u') \<subseteq># mset (backupCodes u)"
  by auto

lemma loginUser_collection: "snd (loginUser X env now us em pw) = us"
  by (simp add: loginUser_def split: option.splits sum.splits)

section \<open>The lockout policy\<close>

text \<open>
  C8. For an account whose \<open>lockUntil\<close> has passed, \<open>incrementLoginAttempts\<close> removes
  \<open>accountLocked\<close> and \<open>lockUntil\<close> and sets \<open>failedLoginAttempts\<close> to exactly 1,
  whatever the counter held; the account then reads as not locked, and no other field
  changes.
\<close>

theorem incrementLoginAttempts_lapsed_lock:
  assumes "lockUntil u = Some t" and "t < now"
  shows "failedLoginAttempts (incrementLoginAttempts now u) = Some 1
       \<and> loaded_failedLoginAttempts (incrementLoginAttempts now u) = 1
       \<and> accountLocked (incrementLoginAttempts now u) = None
       \<and> lockUntil (incrementLoginAttempts now u) = None
       \<and> \<not> loaded_accountLocked (incrementLoginAttempts now u)
       \<and> \<not> isLocked now' (incrementLoginAttempts now u)
       \<and> incrementLoginAttempts now u =
           u\<lparr>lockUntil := None, accountLocked := None, failedLoginAttempts := Some 1\<rparr>"
  using assms
  by (simp add: incrementLoginAttempts_def loaded_failedLoginAttempts_def
      loaded_accountLocked_def isLocked_def)

theorem incrementLoginAttempts_lapsed_lock_witness:
  "lockUntil locked_alice = Some 7200000 \<and> (7200000::int) < 7200001
   \<and> failedLoginAttempts locked_alice = Some 5
   \<and> failedLoginAttempts (incrementLoginAttempts 7200001 locked_alice) = Some 1
   \<and> accountLocked (incrementLoginAttempts 7200001 locked_alice) = None
   \<and> lockUntil (incrementLoginAttempts 7200001 locked_alice) = None"
  using incrementLoginAttempts_lapsed_lock [of locked_alice 7200000 7200001]
  by (simp add: locked_alice_def alice_def)

section \<open>The login use case\<close>

text \<open>
  C1. The claim fails on \<open>AuthService.loginUser\<close>, the function the login endpoint
  calls: it never reads the lock. For every account that is locked at the time of the
  attempt, a login with the right password returns the account and a token instead of
  failing with AccountLocked. (\<open>findByCredentials\<close>, which has the gate, is never
  called.)
\<close>

theorem loginUser_skips_lock_gate:
  assumes "findByEmail (normalizeEmail X em) us = Some u"
    and "isAccountLocked now u"
    and "comparePasswords X (normalizePassword X pw) (password u)"
    and "generateToken X env now (user_id u, email u, nickname u) = Inr tok"
  shows "loginUser X env now us em pw = (Inr (sanitizeUser u, tok), us)"
  using assms by (simp add: loginUser_def)

theorem loginUser_skips_lock_gate_witness:
  "isAccountLocked 1000 locked_alice
   \<and> loginUser test_externals test_env 1000 [locked_alice] '' Alice@Example.com ''
        ''Str0ng!Pass''
       = (Inr (sanitizeUser locked_alice,
               Signed ''s3cret''
                 \<lparr>claim_id = ''u1'', claim_email = ''alice@example.com'',
                  claim_nickname = ''alice_01'', claim_iat = 1, claim_exp = Some 604801,
                  claim_iss = Some ''astrolune-api'',
                  claim_aud = Some ''astrolune-client''\<rparr>),
          [locked_alice])"
proof -
  have h1: "findByEmail (normalizeEmail test_externals '' Alice@Example.com '') [locked_alice]
            = Some locked_alice"
    by code_simp
  have h2: "isAccountLocked 1000 locked_alice"
    by code_simp
  have h3: "comparePasswords test_externals (normalizePassword test_externals ''Str0ng!Pass'')
              (password locked_alice)"
    by code_simp
  have h4: "generateToken test_externals test_env 1000
              (user_id locked_alice, email locked_alice, nickname locked_alice)
            = Inr (Signed ''s3cret''
                 \<lparr>claim_id = ''u1'', claim_email = ''alice@example.com'',
                  claim_nickname = ''alice_01'', claim_iat = 1, claim_exp = Some 604801,
                  claim_iss = Some ''astrolune-api'',
                  claim_aud = Some ''astrolune-client''\<rparr>)"
    by code_simp
  from loginUser_skips_lock_gate [OF h1 h2 h3 h4] h2 show ?thesis by simp
qed

text \<open>
  C2. The claim fails on \<open>AuthService.loginUser\<close>: on a wrong password for an account
  that is not locked it returns InvalidCredentials, as the claim says, but it sends no
  update, so \<open>failedLoginAttempts\<close> is not incremented and the account is never locked.
  (The failure transition is \<open>incrementLoginAttempts\<close>, reached only through
  \<open>findByCredentials\<close>, which is never called.)
\<close>

theorem loginUser_wrong_password_no_transition:
  assumes "findByEmail (normalizeEmail X em) us = Some u"
    and "\<not> isAccountLocked now u"
    and "\<not> comparePasswords X (normalizePassword X pw) (password u)"
  shows "loginUser X env now us em pw =
           (Inl (AppError ''Invalid credentials'' 401 INVALID_CREDENTIALS), us)"
  using assms by (simp add: loginUser_def)

theorem loginUser_wrong_password_no_transition_witness:
  "\<not> isAccountLocked 1000 (alice\<lparr>failedLoginAttempts := Some 4\<rparr>)
   \<and> loginUser test_externals test_env 1000 [alice\<lparr>failedLoginAttempts := Some 4\<rparr>]
        ''alice@example.com'' ''wrong-password''
       = (Inl (AppError ''Invalid credentials'' 401 INVALID_CREDENTIALS),
          [alice\<lparr>failedLoginAttempts := Some 4\<rparr>])
   \<and> snd (findByCredentials test_externals 1000 [alice\<lparr>failedLoginAttempts := Some 4\<rparr>]
        ''alice@example.com'' ''wrong-password'')
       = [alice\<lparr>failedLoginAttempts := Some 5, accountLocked := Some True,
                 lockUntil := Some 7201000\<rparr>]"
proof -
  let ?u = "alice\<lparr>failedLoginAttempts := Some 4\<rparr>"
  have h1: "findByEmail (normalizeEmail test_externals ''alice@example.com'') [?u] = Some ?u"
    by code_simp
  have h2: "\<not> isAccountLocked 1000 ?u"
    by code_simp
  have h3: "\<not> comparePasswords test_externals
              (normalizePassword test_externals ''wrong-password'') (password ?u)"
    by code_simp
  have h4: "snd (findByCredentials test_externals 1000 [?u] ''alice@example.com''
              ''wrong-password'')
            = [alice\<lparr>failedLoginAttempts := Some 5, accountLocked := Some True,
                 lockUntil := Some 7201000\<rparr>]"
    by code_simp
  from loginUser_wrong_password_no_transition [OF h1 h2 h3, of test_env] h2 h4
  show ?thesis by simp
qed

text \<open>
  C3. The claim fails on \<open>AuthService.loginUser\<close>: with the right password on an
  account that is not locked the login succeeds, as the claim says, but the collection
  is left as it was: \<open>failedLoginAttempts\<close>, \<open>accountLocked\<close> and \<open>lockUntil\<close> are not
  cleared and \<open>lastLoginAt\<close> is not set. (The success transition is
  \<open>resetLoginAttempts\<close>, reached only through \<open>findByCredentials\<close>, which is never
  called.)
\<close>

theorem loginUser_success_no_transition:
  assumes "findByEmail (normalizeEmail X em) us = Some u"
    and "\<not> isAccountLocked now u"
    and "comparePasswords X (normalizePassword X pw) (password u)"
    and "generateToken X env now (user_id u, email u, nickname u) = Inr tok"
  shows "loginUser X env now us em pw = (Inr (sanitizeUser u, tok), us)"
  using assms by (simp add: loginUser_def)

theorem loginUser_success_no_transition_witness:
  "\<not> isAccountLocked 1000 lapsed_alice
   \<and> loginUser test_externals test_env 1000 [lapsed_alice] ''alice@example.com''
        ''Str0ng!Pass''
       = (Inr (sanitizeUser lapsed_alice, alice_token), [lapsed_alice])
   \<and> failedLoginAttempts lapsed_alice = Some 3
   \<and> lastLoginAt lapsed_alice = None
   \<and> snd (findByCredentials test_externals 1000 [lapsed_alice] ''alice@example.com''
        ''Str0ng!Pass'')
       = [alice\<lparr>failedLoginAttempts := None, accountLocked := None, lockUntil := None,
                 lastLoginAt := Some 1000\<rparr>]"
proof -
  have h1: "findByEmail (normalizeEmail test_externals ''alice@example.com'') [lapsed_alice]
            = Some lapsed_alice"
    by code_simp
  have h2: "\<not> isAccountLocked 1000 lapsed_alice"
    by code_simp
  have h3: "comparePasswords test_externals (normalizePassword test_externals ''Str0ng!Pass'')
              (password lapsed_alice)"
    by code_simp
  have h4: "generateToken test_externals test_env 1000
              (user_id lapsed_alice, email lapsed_alice, nickname lapsed_alice)
            = Inr alice_token"
    by code_simp
  have h5: "failedLoginAttempts lapsed_alice = Some 3 \<and> lastLoginAt lapsed_alice = None"
    by code_simp
  have h6: "snd (findByCredentials test_externals 1000 [lapsed_alice] ''alice@example.com''
              ''Str0ng!Pass'')
            = [alice\<lparr>failedLoginAttempts := None, accountLocked := None, lockUntil := None,
                 lastLoginAt := Some 1000\<rparr>]"
    by code_simp
  from loginUser_success_no_transition [OF h1 h2 h3 h4] h2 h5 h6 show ?thesis by simp
qed

section \<open>The lockout policy in \<open>findByCredentials\<close>\<close>

text \<open>
  The static \<open>findByCredentials\<close> has the gate and the two transitions that
  \<open>loginUser\<close> lacks. For a locked account it throws ACCOUNT_LOCKED and leaves the
  collection as it was, whatever the password and whatever the comparison would answer.
\<close>

theorem findByCredentials_lock_gate:
  assumes "findByEmail (trim X (toLowerCase X em)) us = Some u" and "isAccountLocked now u"
  shows "findByCredentials X now us em pw = (Inl (Error ''ACCOUNT_LOCKED''), us)
       \<and> findByCredentials (X\<lparr>bcrypt_compare := cmp\<rparr>) now us em pw'
           = (Inl (Error ''ACCOUNT_LOCKED''), us)"
  using assms by (simp add: findByCredentials_def)

theorem findByCredentials_lock_gate_witness:
  "isAccountLocked 1000 locked_alice
   \<and> findByCredentials test_externals 1000 [locked_alice] '' Alice@Example.com '' ''Str0ng!Pass''
       = (Inl (Error ''ACCOUNT_LOCKED''), [locked_alice])"
proof -
  have h1: "findByEmail (trim test_externals (toLowerCase test_externals '' Alice@Example.com ''))
              [locked_alice] = Some locked_alice"
    by code_simp
  have h2: "isAccountLocked 1000 locked_alice"
    by code_simp
  from findByCredentials_lock_gate [OF h1 h2] h2 show ?thesis by simp
qed

text \<open>
  On a wrong password for an account that is not locked, \<open>findByCredentials\<close> returns
  \<open>null\<close> and stores the failure transition; for an account with no \<open>lockUntil\<close> the
  counter goes up by one, and on reaching 5 the account is locked until two hours from
  now.
\<close>

theorem findByCredentials_failure_transition:
  assumes "findByEmail (trim X (toLowerCase X em)) us = Some u"
    and "\<not> isAccountLocked now u"
    and "\<not> comparePassword X u pw"
    and "distinct (map user_id us)"
  shows "fst (findByCredentials X now us em pw) = Inr None
       \<and> findById (user_id u) (snd (findByCredentials X now us em pw))
           = Some (incrementLoginAttempts now u)
       \<and> (lockUntil u = None \<longrightarrow>
            failedLoginAttempts (incrementLoginAttempts now u)
              = Some (loaded_failedLoginAttempts u + 1)
            \<and> (5 \<le> loaded_failedLoginAttempts u + 1 \<longrightarrow>
                 accountLocked (incrementLoginAttempts now u) = Some True
                 \<and> lockUntil (incrementLoginAttempts now u) = Some (now + 7200000))
            \<and> (loaded_failedLoginAttempts u + 1 < 5 \<longrightarrow>
                 accountLocked (incrementLoginAttempts now u) = accountLocked u
                 \<and> lockUntil (incrementLoginAttempts now u) = None))"
proof -
  from assms(1) have "u \<in> set us" by (rule findByEmail_member)
  with assms(4) have "findById (user_id u) us = Some u" by (rule findById_distinct)
  then have stored: "findById (user_id u) (updateOne (user_id u) (incrementLoginAttempts now) us)
      = Some (incrementLoginAttempts now u)"
    by (simp add: findById_updateOne incrementLoginAttempts_frame)
  have res: "findByCredentials X now us em pw
      = (Inr None, updateOne (user_id u) (incrementLoginAttempts now) us)"
    using assms(1-3) by (simp add: findByCredentials_def)
  have trans: "lockUntil u = None \<longrightarrow>
            failedLoginAttempts (incrementLoginAttempts now u)
              = Some (loaded_failedLoginAttempts u + 1)
            \<and> (5 \<le> loaded_failedLoginAttempts u + 1 \<longrightarrow>
                 accountLocked (incrementLoginAttempts now u) = Some True
                 \<and> lockUntil (incrementLoginAttempts now u) = Some (now + 7200000))
            \<and> (loaded_failedLoginAttempts u + 1 < 5 \<longrightarrow>
                 accountLocked (incrementLoginAttempts now u) = accountLocked u
                 \<and> lockUntil (incrementLoginAttempts now u) = None)"
    by (simp add: incrementLoginAttempts_def isLocked_def MAX_LOGIN_ATTEMPTS_def LOCK_TIME_def)
  from res stored trans show ?thesis by simp
qed

theorem findByCredentials_failure_transition_witness:
  "fst (findByCredentials test_externals 1000 [alice\<lparr>failedLoginAttempts := Some 4\<rparr>]
          ''alice@example.com'' ''wrong-password'') = Inr None
   \<and> findById ''u1''
        (snd (findByCredentials test_externals 1000 [alice\<lparr>failedLoginAttempts := Some 4\<rparr>]
                ''alice@example.com'' ''wrong-password''))
       = Some (alice\<lparr>failedLoginAttempts := Some 5, accountLocked := Some True,
                     lockUntil := Some 7201000\<rparr>)"
proof -
  let ?u = "alice\<lparr>failedLoginAttempts := Some 4\<rparr>"
  have h1: "findByEmail (trim test_externals (toLowerCase test_externals ''alice@example.com''))
              [?u] = Some ?u"
    by code_simp
  have h2: "\<not> isAccountLocked 1000 ?u" by code_simp
  have h3: "\<not> comparePassword test_externals ?u ''wrong-password''" by code_simp
  have h4: "distinct (map user_id [?u])" by simp
  have e: "incrementLoginAttempts 1000 ?u
           = alice\<lparr>failedLoginAttempts := Some 5, accountLocked := Some True,
                   lockUntil := Some 7201000\<rparr>"
    by code_simp
  have i: "user_id ?u = ''u1''" by code_simp
  from findByCredentials_failure_transition [OF h1 h2 h3 h4] e i show ?thesis by simp
qed

text \<open>
  On the right password for an account that is not locked (a lapsed lock included),
  \<open>findByCredentials\<close> returns the account and stores the success transition: the
  counter and the lock are removed and \<open>lastLoginAt\<close> is the time of the login.
\<close>

theorem findByCredentials_success_transition:
  assumes "findByEmail (trim X (toLowerCase X em)) us = Some u"
    and "\<not> isAccountLocked now u"
    and "comparePassword X u pw"
    and "distinct (map user_id us)"
  shows "fst (findByCredentials X now us em pw) = Inr (Some u)
       \<and> findById (user_id u) (snd (findByCredentials X now us em pw))
           = Some (u\<lparr>failedLoginAttempts := None, lockUntil := None, accountLocked := None,
                     lastLoginAt := Some now\<rparr>)"
proof -
  from assms(1) have "u \<in> set us" by (rule findByEmail_member)
  with assms(4) have "findById (user_id u) us = Some u" by (rule findById_distinct)
  then have stored: "findById (user_id u) (updateOne (user_id u) (resetLoginAttempts now) us)
      = Some (resetLoginAttempts now u)"
    by (simp add: findById_updateOne resetLoginAttempts_frame)
  have res: "findByCredentials X now us em pw
      = (Inr (Some u), updateOne (user_id u) (resetLoginAttempts now) us)"
    using assms(1-3) by (simp add: findByCredentials_def)
  from res stored show ?thesis by (simp add: resetLoginAttempts_def)
qed

theorem findByCredentials_success_transition_witness:
  "\<not> isAccountLocked 1000 lapsed_alice
   \<and> fst (findByCredentials test_externals 1000 [lapsed_alice] ''alice@example.com''
            ''Str0ng!Pass'') = Inr (Some lapsed_alice)
   \<and> findById ''u1''
        (snd (findByCredentials test_externals 1000 [lapsed_alice] ''alice@example.com''
                ''Str0ng!Pass''))
       = Some (alice\<lparr>failedLoginAttempts := None, accountLocked := None, lockUntil := None,
                     lastLoginAt := Some 1000\<rparr>)"
proof -
  have h1: "findByEmail (trim test_externals (toLowerCase test_externals ''alice@example.com''))
              [lapsed_alice] = Some lapsed_alice"
    by code_simp
  have h2: "\<not> isAccountLocked 1000 lapsed_alice" by code_simp
  have h3: "comparePassword test_externals lapsed_alice ''Str0ng!Pass''" by code_simp
  have h4: "distinct (map user_id [lapsed_alice])" by simp
  have e: "lapsed_alice\<lparr>failedLoginAttempts := None, lockUntil := None, accountLocked := None,
                       lastLoginAt := Some 1000\<rparr>
           = alice\<lparr>failedLoginAttempts := None, accountLocked := None, lockUntil := None,
                   lastLoginAt := Some 1000\<rparr>"
    by code_simp
  have i: "user_id lapsed_alice = ''u1''" by code_simp
  from findByCredentials_success_transition [OF h1 h2 h3 h4] h2 e i show ?thesis by simp
qed

section \<open>Recovery codes\<close>

text \<open>
  C6. In every collection the recovery service can reach, for an account that holds a
  live recovery code \<open>r\<close> (its hash is that of the submitted code and it has not
  expired), \<open>verifyRecoveryCode\<close> returns true and deletes exactly that record in the
  same \<open>findOneAndDelete\<close>; the record is then gone, and a repeated call with the same
  code returns false, at whatever time it is made.
\<close>

theorem verifyRecoveryCode_single_use:
  assumes "reachable_codes X cs" and "r \<in> set cs" and "live_match X now uid c r"
  shows "verifyRecoveryCode X now cs uid c = (True, remove1 r cs)
       \<and> r \<notin> set (remove1 r cs)
       \<and> (\<forall>now'. verifyRecoveryCode X now' (remove1 r cs) uid c = (False, remove1 r cs))"
proof -
  let ?p = "\<lambda>x. rc_userId x = uid"
  have one: "length (filter ?p cs) \<le> 1"
    using assms(1) by (rule reachable_one_per_user)
  have pr: "?p r" using assms(3) by (simp add: live_match_def)
  obtain x where fx: "find (live_match X now uid c) cs = Some x"
    using assms(2,3) by (cases "find (live_match X now uid c) cs") (auto simp: find_None_iff)
  then have "x \<in> set cs" and "?p x"
    by (auto simp: find_Some_iff live_match_def)
  then have "x = r"
    using filter_le_one_unique [where p = "?p", OF one _ _ assms(2) pr] by blast
  with fx have first: "verifyRecoveryCode X now cs uid c = (True, remove1 r cs)"
    by (simp add: verifyRecoveryCode_find)
  have gone: "\<forall>y \<in> set (remove1 r cs). \<not> ?p y"
    using filter_le_one_removed [where p = "?p", OF one assms(2) pr] by blast
  with pr have notin: "r \<notin> set (remove1 r cs)" by blast
  have "find (live_match X now' uid c) (remove1 r cs) = None" for now'
    using gone by (auto simp: find_None_iff live_match_def)
  then have again:
    "\<forall>now'. verifyRecoveryCode X now' (remove1 r cs) uid c = (False, remove1 r cs)"
    by (simp add: verifyRecoveryCode_find)
  from first notin again show ?thesis by simp
qed

theorem verifyRecoveryCode_single_use_witness:
  "generateRecoveryCode test_externals test_source 1000 [] ''u1'' = (''A1C6EB'', [alice_code])
   \<and> verifyRecoveryCode test_externals 2000 [alice_code] ''u1'' ''A1C6EB'' = (True, [])
   \<and> verifyRecoveryCode test_externals 2000 [] ''u1'' ''A1C6EB'' = (False, [])"
proof -
  have g: "generateRecoveryCode test_externals test_source 1000 [] ''u1''
           = (''A1C6EB'', [alice_code])"
    by code_simp
  have "reachable_codes test_externals
          (snd (generateRecoveryCode test_externals test_source 1000 [] ''u1''))"
    by (rule reach_generate [OF reach_empty])
  with g have h1: "reachable_codes test_externals [alice_code]" by simp
  have h2: "alice_code \<in> set [alice_code]" by simp
  have h3: "live_match test_externals 2000 ''u1'' ''A1C6EB'' alice_code" by code_simp
  from verifyRecoveryCode_single_use [OF h1 h2 h3] g show ?thesis by simp
qed

text \<open>
  C7. For an authenticated request, \<open>useBackupCode\<close> leaves the user collection (and
  with it every \<open>backupCodes\<close> array) unchanged; it succeeds exactly when the account
  holds a live recovery code whose hash is that of the submitted code, and then deletes
  that record; otherwise it fails and changes nothing. Its answer does not depend on the
  user collection or on the \<open>backupCodes\<close> of the requesting account.
\<close>

theorem useBackupCode_checks_recovery_codes:
  "users (snd (useBackupCode X now st (Some u) code)) = users st
   \<and> outbox (snd (useBackupCode X now st (Some u) code)) = outbox st
   \<and> ((\<exists>resp. fst (useBackupCode X now st (Some u) code) = Inr resp)
        \<longleftrightarrow> (\<exists>r \<in> set (recovery_codes st). live_match X now (user_id u) code r))
   \<and> (\<forall>r. find (live_match X now (user_id u) code) (recovery_codes st) = Some r \<longrightarrow>
         useBackupCode X now st (Some u) code =
           (Inr (200, \<lparr>success = True, message = ''Backup code verified''\<rparr>),
            st\<lparr>recovery_codes := remove1 r (recovery_codes st)\<rparr>))
   \<and> (find (live_match X now (user_id u) code) (recovery_codes st) = None \<longrightarrow>
         useBackupCode X now st (Some u) code = (Inl (Error ''Invalid backup code''), st))
   \<and> fst (useBackupCode X now (st\<lparr>users := us'\<rparr>) (Some (u\<lparr>backupCodes := b\<rparr>)) code)
       = fst (useBackupCode X now st (Some u) code)"
proof (cases "find (live_match X now (user_id u) code) (recovery_codes st)")
  case None
  then have "\<not> (\<exists>r \<in> set (recovery_codes st). live_match X now (user_id u) code r)"
    by (simp add: find_None_iff)
  with None show ?thesis
    by (simp add: useBackupCode_def verifyRecoveryCode_find)
next
  case (Some r)
  then have "\<exists>r \<in> set (recovery_codes st). live_match X now (user_id u) code r"
    by (auto simp: find_Some_iff)
  with Some show ?thesis
    by (simp add: useBackupCode_def verifyRecoveryCode_find)
qed

theorem useBackupCode_checks_recovery_codes_witness:
  "backupCodes (hd (users test_state)) = [sha256_hex test_externals ''0123456789ABCDEF'']
   \<and> useBackupCode test_externals 2000 test_state (Some (hd (users test_state))) ''A1C6EB''
       = (Inr (200, \<lparr>success = True, message = ''Backup code verified''\<rparr>),
          test_state\<lparr>recovery_codes := []\<rparr>)
   \<and> useBackupCode test_externals 2000 test_state (Some (hd (users test_state)))
        ''0123456789ABCDEF''
       = (Inl (Error ''Invalid backup code''), test_state)"
proof -
  let ?u = "hd (users test_state)"
  have h0: "backupCodes ?u = [sha256_hex test_externals ''0123456789ABCDEF'']"
    by code_simp
  have h1: "find (live_match test_externals 2000 (user_id ?u) ''A1C6EB'')
              (recovery_codes test_state) = Some alice_code"
    by code_simp
  have h2: "find (live_match test_externals 2000 (user_id ?u) ''0123456789ABCDEF'')
              (recovery_codes test_state) = None"
    by code_simp
  have h3: "remove1 alice_code (recovery_codes test_state) = []"
    by code_simp
  from useBackupCode_checks_recovery_codes
         [of test_externals 2000 test_state ?u "''A1C6EB''"] h1 h3
  have a: "useBackupCode test_externals 2000 test_state (Some ?u) ''A1C6EB''
       = (Inr (200, \<lparr>success = True, message = ''Backup code verified''\<rparr>),
          test_state\<lparr>recovery_codes := []\<rparr>)"
    by simp
  from useBackupCode_checks_recovery_codes
         [of test_externals 2000 test_state ?u "''0123456789ABCDEF''"] h2
  have b: "useBackupCode test_externals 2000 test_state (Some ?u) ''0123456789ABCDEF''
       = (Inl (Error ''Invalid backup code''), test_state)"
    by simp
  from h0 a b show ?thesis by simp
qed

section \<open>Password reset initiation\<close>

text \<open>
  C4. The claim fails on \<open>initPasswordReset\<close>: the two answers have the same status
  (200) and the same fields, but the message for a registered email is not the message
  for an unregistered one, so the response tells the two apart. When the mail service
  fails, a registered email gets an error instead of a response.
\<close>

theorem initPasswordReset_reveals_registration:
  assumes "findByEmail (trim X (toLowerCase X em)) (users st) = Some u"
    and "findByEmail (trim X (toLowerCase X em')) (users st') = None"
  shows "fst (initPasswordReset X src' now' ok' st' em') =
           Inr (200, \<lparr>success = True,
                      message = ''If the email exists, a recovery code has been sent''\<rparr>)
       \<and> fst (initPasswordReset X src now True st em) =
           Inr (200, \<lparr>success = True, message = ''Recovery code sent to email''\<rparr>)
       \<and> fst (initPasswordReset X src now ok st em)
           \<noteq> fst (initPasswordReset X src' now' ok' st' em')"
  using assms by (cases ok) (simp_all add: initPasswordReset_def split: prod.splits)

theorem initPasswordReset_reveals_registration_witness:
  "fst (initPasswordReset test_externals test_source 1000 True test_state ''alice@example.com'')
     = Inr (200, \<lparr>success = True, message = ''Recovery code sent to email''\<rparr>)
   \<and> fst (initPasswordReset test_externals test_source 1000 True test_state ''bob@example.com'')
     = Inr (200, \<lparr>success = True,
                  message = ''If the email exists, a recovery code has been sent''\<rparr>)
   \<and> fst (initPasswordReset test_externals test_source 1000 True test_state ''alice@example.com'')
     \<noteq> fst (initPasswordReset test_externals test_source 1000 True test_state ''bob@example.com'')"
proof -
  have h1: "findByEmail (trim test_externals (toLowerCase test_externals ''alice@example.com''))
              (users test_state) = Some (hd (users test_state))"
    by code_simp
  have h2: "findByEmail (trim test_externals (toLowerCase test_externals ''bob@example.com''))
              (users test_state) = None"
    by code_simp
  from initPasswordReset_reveals_registration
         [OF h1 h2, of test_source 1000 True test_source 1000 True]
  show ?thesis by simp
qed

section \<open>Session tokens: issue and verification\<close>

lemma verifyToken_Signed:
  "getJwtSecret env = Inr secret \<Longrightarrow>
   verifyToken env now (Signed k c) =
     (if k \<noteq> secret then Inl (AppError ''Invalid token'' 401 INVALID_TOKEN)
      else if (case claim_exp c of None \<Rightarrow> False | Some e \<Rightarrow> e \<le> now div 1000)
        then Inl (AppError ''Token expired'' 401 TOKEN_EXPIRED)
      else if claim_aud c \<noteq> Some (getJwtAudience env) \<or> claim_iss c \<noteq> Some (getJwtIssuer env)
        then Inl (AppError ''Invalid token'' 401 INVALID_TOKEN)
      else Inr c)"
  by (simp add: verifyToken_def jwt_verify_def)

lemma verifyToken_Malformed:
  "getJwtSecret env = Inr secret \<Longrightarrow>
   verifyToken env now (Malformed s) = Inl (AppError ''Invalid token'' 401 INVALID_TOKEN)"
  by (simp add: verifyToken_def jwt_verify_def)

lemma generateToken_ok:
  "getJwtSecret env = Inr secret \<Longrightarrow> timespan X (getJwtExpiresIn env) = Some ttl \<Longrightarrow>
   generateToken X env issued payload =
     Inr (Signed secret
            \<lparr>claim_id = fst payload, claim_email = fst (snd payload),
             claim_nickname = snd (snd payload), claim_iat = issued div 1000,
             claim_exp = Some (issued div 1000 + ttl),
             claim_iss = Some (getJwtIssuer env), claim_aud = Some (getJwtAudience env)\<rparr>)"
  by (simp add: generateToken_def jwt_sign_def split: prod.splits)

text \<open>
  C5. With the secret configured and a time span that parses, \<open>generateToken\<close> returns
  a token for every payload \<open>{id, email, nickname}\<close>; \<open>verifyToken\<close> of that token
  returns claims with that payload as long as the clock, in whole seconds, is before
  the expiry, and fails with TOKEN_EXPIRED from the expiry on. Every token signed with
  the secret whose expiry has passed fails with TOKEN_EXPIRED. A malformed token, a
  token signed with another key, and an unexpired token with the wrong issuer or
  audience fail with INVALID_TOKEN, and \<open>verifyToken\<close> has no other outcome.
\<close>

theorem token_round_trip:
  assumes sec: "getJwtSecret env = Inr secret"
    and ttl: "timespan X (getJwtExpiresIn env) = Some ttl"
  shows "(\<exists>tok. generateToken X env issued payload = Inr tok
            \<and> (\<forall>now. now div 1000 < issued div 1000 + ttl \<longrightarrow>
                  (\<exists>d. verifyToken env now tok = Inr d \<and> payload_of d = payload))
            \<and> (\<forall>now. issued div 1000 + ttl \<le> now div 1000 \<longrightarrow>
                  verifyToken env now tok = Inl (AppError ''Token expired'' 401 TOKEN_EXPIRED)))
       \<and> (\<forall>c e now. claim_exp c = Some e \<and> e \<le> now div 1000 \<longrightarrow>
             verifyToken env now (Signed secret c) =
               Inl (AppError ''Token expired'' 401 TOKEN_EXPIRED))
       \<and> (\<forall>s now. verifyToken env now (Malformed s) =
             Inl (AppError ''Invalid token'' 401 INVALID_TOKEN))
       \<and> (\<forall>k c now. k \<noteq> secret \<longrightarrow>
             verifyToken env now (Signed k c) =
               Inl (AppError ''Invalid token'' 401 INVALID_TOKEN))
       \<and> (\<forall>c now. \<not> (case claim_exp c of None \<Rightarrow> False | Some e \<Rightarrow> e \<le> now div 1000)
               \<and> (claim_iss c \<noteq> Some (getJwtIssuer env)
                    \<or> claim_aud c \<noteq> Some (getJwtAudience env))
             \<longrightarrow> verifyToken env now (Signed secret c) =
                   Inl (AppError ''Invalid token'' 401 INVALID_TOKEN))
       \<and> (\<forall>tok now. (\<exists>d. verifyToken env now tok = Inr d)
             \<or> verifyToken env now tok = Inl (AppError ''Token expired'' 401 TOKEN_EXPIRED)
             \<or> verifyToken env now tok = Inl (AppError ''Invalid token'' 401 INVALID_TOKEN))"
proof -
  have round: "\<exists>tok. generateToken X env issued payload = Inr tok
            \<and> (\<forall>now. now div 1000 < issued div 1000 + ttl \<longrightarrow>
                  (\<exists>d. verifyToken env now tok = Inr d \<and> payload_of d = payload))
            \<and> (\<forall>now. issued div 1000 + ttl \<le> now div 1000 \<longrightarrow>
                  verifyToken env now tok = Inl (AppError ''Token expired'' 401 TOKEN_EXPIRED))"
    by (simp add: generateToken_ok [OF sec ttl] verifyToken_Signed [OF sec] payload_of_def)
  have expired: "\<forall>c e now. claim_exp c = Some e \<and> e \<le> now div 1000 \<longrightarrow>
             verifyToken env now (Signed secret c) =
               Inl (AppError ''Token expired'' 401 TOKEN_EXPIRED)"
    by (simp add: verifyToken_Signed [OF sec])
  have malformed: "\<forall>s now. verifyToken env now (Malformed s) =
             Inl (AppError ''Invalid token'' 401 INVALID_TOKEN)"
    by (simp add: verifyToken_Malformed [OF sec])
  have forged: "\<forall>k c now. k \<noteq> secret \<longrightarrow>
             verifyToken env now (Signed k c) =
               Inl (AppError ''Invalid token'' 401 INVALID_TOKEN)"
    by (simp add: verifyToken_Signed [OF sec])
  have mismatch:
    "\<forall>c now. \<not> (case claim_exp c of None \<Rightarrow> False | Some e \<Rightarrow> e \<le> now div 1000)
               \<and> (claim_iss c \<noteq> Some (getJwtIssuer env)
                    \<or> claim_aud c \<noteq> Some (getJwtAudience env))
             \<longrightarrow> verifyToken env now (Signed secret c) =
                   Inl (AppError ''Invalid token'' 401 INVALID_TOKEN)"
    by (auto simp: verifyToken_Signed [OF sec])
  have total: "(\<exists>d. verifyToken env now tok = Inr d)
             \<or> verifyToken env now tok = Inl (AppError ''Token expired'' 401 TOKEN_EXPIRED)
             \<or> verifyToken env now tok = Inl (AppError ''Invalid token'' 401 INVALID_TOKEN)"
    for tok now
    by (cases tok) (simp_all add: verifyToken_Signed [OF sec] verifyToken_Malformed [OF sec])
  from round expired malformed forged mismatch total show ?thesis by blast
qed

theorem token_round_trip_witness:
  "getJwtSecret test_env = Inr ''s3cret''
   \<and> timespan test_externals (getJwtExpiresIn test_env) = Some 604800
   \<and> generateToken test_externals test_env 1000 (''u1'', ''alice@example.com'', ''alice_01'')
       = Inr alice_token
   \<and> (\<exists>d. verifyToken test_env 604800999 alice_token = Inr d
          \<and> payload_of d = (''u1'', ''alice@example.com'', ''alice_01''))
   \<and> verifyToken test_env 604801000 alice_token
       = Inl (AppError ''Token expired'' 401 TOKEN_EXPIRED)
   \<and> verifyToken test_env 2000 (Malformed ''not.a.token'')
       = Inl (AppError ''Invalid token'' 401 INVALID_TOKEN)"
proof -
  have h1: "getJwtSecret test_env = Inr ''s3cret''" by code_simp
  have h2: "timespan test_externals (getJwtExpiresIn test_env) = Some 604800" by code_simp
  have g: "generateToken test_externals test_env 1000
             (''u1'', ''alice@example.com'', ''alice_01'') = Inr alice_token"
    by code_simp
  have a: "(604800999::int) div 1000 < 1000 div 1000 + 604800" by simp
  have b: "(1000::int) div 1000 + 604800 \<le> 604801000 div 1000" by simp
  from token_round_trip [OF h1 h2, of 1000 "(''u1'', ''alice@example.com'', ''alice_01'')"]
    g a b h1 h2
  show ?thesis by auto
qed

section \<open>Backup codes\<close>

lemma findById_id: "findById a us = Some u \<Longrightarrow> user_id u = a"
  by (auto simp: findById_def find_Some_iff)

lemma save_defaults_frame:
  "user_id (save_defaults l d) = user_id d"
  "backupCodes (save_defaults l d) = backupCodes d"
  by (simp_all add: save_defaults_def)

lemma length_hex_upper: "length (hex_upper bs) = 2 * length bs"
  by (induction bs) (simp_all add: hex_upper_def)

lemma validateBackupCode_splice_eq:
  "validateBackupCode_splice X u code =
     (if sha256_hex X code \<in> set (backupCodes u)
      then Some (remove1 (sha256_hex X code) (backupCodes u))
      else None)"
proof (cases "indexOf (sha256_hex X code) (backupCodes u)")
  case None
  then have "sha256_hex X code \<notin> set (backupCodes u)"
    by (simp add: indexOf_None_iff)
  with None show ?thesis
    by (simp add: validateBackupCode_splice_def Let_def)
next
  case (Some i)
  then have "sha256_hex X code \<in> set (backupCodes u)"
    using indexOf_None_iff [of "sha256_hex X code" "backupCodes u"] by auto
  with Some show ?thesis
    by (simp add: validateBackupCode_splice_def Let_def splice1_indexOf)
qed

lemma validateBackupCode_save_findById:
  assumes "findById a us = Some v" and "user_id l = a"
  shows "findById a (validateBackupCode_save l cs us)
           = Some ((save_defaults l v)\<lparr>backupCodes := cs\<rparr>)"
  using assms
  by (simp add: validateBackupCode_save_def findById_updateOne save_defaults_frame)

lemma validateBackupCode_save_other:
  assumes "b \<noteq> user_id l"
  shows "findById b (validateBackupCode_save l cs us) = findById b us"
  using assms
  by (simp add: validateBackupCode_save_def findById_updateOne save_defaults_frame)

lemma validateBackupCode_account:
  assumes "findById a us = Some u"
  shows "validateBackupCode X us a code =
           (sha256_hex X code \<in> set (backupCodes u),
            if sha256_hex X code \<in> set (backupCodes u)
            then validateBackupCode_save u (remove1 (sha256_hex X code) (backupCodes u)) us
            else us)"
  using assms
  by (simp add: validateBackupCode_def validateBackupCode_load_def
      validateBackupCode_splice_eq)

text \<open>
  C9. The claim fails on \<open>validateBackupCode\<close> when two calls for one account overlap.
  Let the account hold the hashes of two different codes A and B, and let both calls
  read the account before either writes. Each call finds its hash and splices it out of
  its own copy. After the first write the stored array lacks the hash of A; the second
  write stores the second call's copy, which still has it. So the stored backup codes
  grow again by a hash that was consumed, and a later call accepts code A once more.
  (\<open>verifyRecoveryCode\<close> consumes its code in one \<open>findOneAndDelete\<close>;
  \<open>validateBackupCode\<close> reads and saves with no version check.)
\<close>

theorem validateBackupCode_overlap_restores_code:
  assumes "validateBackupCode_load us a = Some u"
    and "sha256_hex X codeA \<in> set (backupCodes u)"
    and "sha256_hex X codeB \<in> set (backupCodes u)"
    and "sha256_hex X codeA \<noteq> sha256_hex X codeB"
  shows "validateBackupCode_splice X u codeA
           = Some (remove1 (sha256_hex X codeA) (backupCodes u))
       \<and> validateBackupCode_splice X u codeB
           = Some (remove1 (sha256_hex X codeB) (backupCodes u))
       \<and> (\<exists>u1 u2.
            findById a
              (validateBackupCode_save u (remove1 (sha256_hex X codeA) (backupCodes u)) us)
              = Some u1
            \<and> backupCodes u1 = remove1 (sha256_hex X codeA) (backupCodes u)
            \<and> findById a
                (validateBackupCode_save u (remove1 (sha256_hex X codeB) (backupCodes u))
                   (validateBackupCode_save u
                      (remove1 (sha256_hex X codeA) (backupCodes u)) us))
              = Some u2
            \<and> backupCodes u2 = remove1 (sha256_hex X codeB) (backupCodes u)
            \<and> sha256_hex X codeA \<in> set (backupCodes u2)
            \<and> \<not> mset (backupCodes u2) \<subseteq># mset (backupCodes u1)
            \<and> fst (validateBackupCode X
                     (validateBackupCode_save u
                        (remove1 (sha256_hex X codeB) (backupCodes u))
                        (validateBackupCode_save u
                           (remove1 (sha256_hex X codeA) (backupCodes u)) us))
                     a codeA))"
proof -
  let ?hA = "sha256_hex X codeA" and ?hB = "sha256_hex X codeB"
  let ?csA = "remove1 ?hA (backupCodes u)" and ?csB = "remove1 ?hB (backupCodes u)"
  let ?us1 = "validateBackupCode_save u ?csA us"
  let ?us2 = "validateBackupCode_save u ?csB ?us1"
  let ?u1 = "(save_defaults u u)\<lparr>backupCodes := ?csA\<rparr>"
  let ?u2 = "(save_defaults u ?u1)\<lparr>backupCodes := ?csB\<rparr>"
  from assms(1) have found: "findById a us = Some u"
    by (simp add: validateBackupCode_load_def)
  then have id: "user_id u = a" by (rule findById_id)
  have sA: "validateBackupCode_splice X u codeA = Some ?csA"
    using assms(2) by (simp add: validateBackupCode_splice_eq)
  have sB: "validateBackupCode_splice X u codeB = Some ?csB"
    using assms(3) by (simp add: validateBackupCode_splice_eq)
  have f1: "findById a ?us1 = Some ?u1"
    using found id by (rule validateBackupCode_save_findById)
  have f2: "findById a ?us2 = Some ?u2"
    using f1 id by (rule validateBackupCode_save_findById)
  have restored: "?hA \<in> set ?csB"
    using assms(2,4) by simp
  have "count (mset ?csA) ?hA < count (mset ?csB) ?hA"
    using assms(2,4) by (simp add: count_greater_zero_iff)
  then have grows: "\<not> mset ?csB \<subseteq># mset ?csA"
    by (metis mset_subset_eq_count not_less)
  have again: "fst (validateBackupCode X ?us2 a codeA)"
    using restored by (simp add: validateBackupCode_account [OF f2])
  from sA sB f1 f2 restored grows again show ?thesis by simp
qed

theorem validateBackupCode_overlap_restores_code_witness:
  "validateBackupCode_load [backup_alice] ''u1'' = Some backup_alice
   \<and> validateBackupCode_splice test_externals backup_alice ''0123456789ABCDEF''
       = Some [''sha256:FEDCBA9876543210'']
   \<and> validateBackupCode_splice test_externals backup_alice ''FEDCBA9876543210''
       = Some [''sha256:0123456789ABCDEF'']
   \<and> map backupCodes
        (validateBackupCode_save backup_alice [''sha256:FEDCBA9876543210''] [backup_alice])
       = [[''sha256:FEDCBA9876543210'']]
   \<and> map backupCodes
        (validateBackupCode_save backup_alice [''sha256:0123456789ABCDEF'']
           (validateBackupCode_save backup_alice [''sha256:FEDCBA9876543210'']
              [backup_alice]))
       = [[''sha256:0123456789ABCDEF'']]
   \<and> fst (validateBackupCode test_externals
            (validateBackupCode_save backup_alice
               (remove1 (sha256_hex test_externals ''FEDCBA9876543210'')
                  (backupCodes backup_alice))
               (validateBackupCode_save backup_alice
                  (remove1 (sha256_hex test_externals ''0123456789ABCDEF'')
                     (backupCodes backup_alice))
                  [backup_alice]))
            ''u1'' ''0123456789ABCDEF'')"
proof -
  have h1: "validateBackupCode_load [backup_alice] ''u1'' = Some backup_alice"
    by code_simp
  have h2: "sha256_hex test_externals ''0123456789ABCDEF'' \<in> set (backupCodes backup_alice)"
    by code_simp
  have h3: "sha256_hex test_externals ''FEDCBA9876543210'' \<in> set (backupCodes backup_alice)"
    by code_simp
  have h4: "sha256_hex test_externals ''0123456789ABCDEF''
            \<noteq> sha256_hex test_externals ''FEDCBA9876543210''"
    by code_simp
  have e1: "validateBackupCode_splice test_externals backup_alice ''0123456789ABCDEF''
            = Some [''sha256:FEDCBA9876543210'']"
    by code_simp
  have e2: "validateBackupCode_splice test_externals backup_alice ''FEDCBA9876543210''
            = Some [''sha256:0123456789ABCDEF'']"
    by code_simp
  have e3: "map backupCodes
        (validateBackupCode_save backup_alice [''sha256:FEDCBA9876543210''] [backup_alice])
       = [[''sha256:FEDCBA9876543210'']]"
    by code_simp
  have e4: "map backupCodes
        (validateBackupCode_save backup_alice [''sha256:0123456789ABCDEF'']
           (validateBackupCode_save backup_alice [''sha256:FEDCBA9876543210'']
              [backup_alice]))
       = [[''sha256:0123456789ABCDEF'']]"
    by code_simp
  from validateBackupCode_overlap_restores_code [OF h1 h2 h3 h4]
  have "fst (validateBackupCode test_externals
            (validateBackupCode_save backup_alice
               (remove1 (sha256_hex test_externals ''FEDCBA9876543210'')
                  (backupCodes backup_alice))
               (validateBackupCode_save backup_alice
                  (remove1 (sha256_hex test_externals ''0123456789ABCDEF'')
                     (backupCodes backup_alice))
                  [backup_alice]))
            ''u1'' ''0123456789ABCDEF'')"
    by blast
  with h1 e1 e2 e3 e4 show ?thesis by blast
qed

subsection \<open>Calls that do not overlap\<close>

lemma validateBackupCode_findById:
  assumes "findById a us = Some u"
  shows "\<exists>u'. findById a (snd (validateBackupCode X us i code)) = Some u'
           \<and> mset (backupCodes u') \<subseteq># mset (backupCodes u)"
proof (cases "findById i us")
  case None
  with assms show ?thesis
    by (simp add: validateBackupCode_def validateBackupCode_load_def)
next
  case (Some v)
  show ?thesis
  proof (cases "a = i")
    case True
    with assms Some have v: "v = u" by simp
    from assms True have "user_id u = i" by (simp add: findById_id)
    with True assms v Some show ?thesis
      by (simp add: validateBackupCode_account validateBackupCode_save_findById)
  next
    case False
    from Some have "user_id v = i" by (rule findById_id)
    with False assms Some show ?thesis
      by (simp add: validateBackupCode_account validateBackupCode_save_other)
  qed
qed

lemma validateBackupCode_other:
  assumes "findById a us = Some u" and "b \<noteq> a"
  shows "findById b (snd (validateBackupCode X us a code)) = findById b us"
proof -
  from assms(1) have "user_id u = a" by (rule findById_id)
  with assms show ?thesis
    by (simp add: validateBackupCode_account validateBackupCode_save_other)
qed

lemma generateBackupCodes_account:
  assumes "findById a us = Some u"
  shows "fst (generateBackupCodes X src us a)
           = map (\<lambda>k. hex_upper (randomBytes src (8 * k) 8)) [0 ..< 5]
       \<and> length (fst (generateBackupCodes X src us a)) = 5
       \<and> (\<forall>c \<in> set (fst (generateBackupCodes X src us a)). length c = 16)
       \<and> findById a (snd (generateBackupCodes X src us a))
           = Some (u\<lparr>backupCodes :=
                       map (sha256_hex X) (fst (generateBackupCodes X src us a))\<rparr>)"
  using assms
  by (auto simp: generateBackupCodes_def Let_def findById_updateOne length_hex_upper
      randomBytes_def)

text \<open>Every operation but \<open>generateBackupCodes\<close>, run from its read to its write,
  leaves an account's backup codes as they were or removes some of them.\<close>

lemma account_step_backupCodes:
  assumes "findById a us = Some u" and "\<not> is_generate opn"
  shows "\<exists>u'. findById a (account_step X env opn us) = Some u'
           \<and> mset (backupCodes u') \<subseteq># mset (backupCodes u)"
proof (cases opn)
  case (IncrementLoginAttempts i now)
  have "\<exists>u'. findById a (updateOne i (incrementLoginAttempts now) us) = Some u'
          \<and> backupCodes u' = backupCodes u"
    using assms(1) by (intro updateOne_keeps_backupCodes incrementLoginAttempts_frame)
  with IncrementLoginAttempts show ?thesis by (simp add: shrinks_if_kept)
next
  case (ResetLoginAttempts i now)
  have "\<exists>u'. findById a (updateOne i (resetLoginAttempts now) us) = Some u'
          \<and> backupCodes u' = backupCodes u"
    using assms(1) by (intro updateOne_keeps_backupCodes resetLoginAttempts_frame)
  with ResetLoginAttempts show ?thesis by (simp add: shrinks_if_kept)
next
  case (FindByCredentials now em pw)
  have inc: "\<exists>u'. findById a (updateOne i (incrementLoginAttempts now) us) = Some u'
          \<and> backupCodes u' = backupCodes u" for i
    using assms(1) by (intro updateOne_keeps_backupCodes incrementLoginAttempts_frame)
  have res: "\<exists>u'. findById a (updateOne i (resetLoginAttempts now) us) = Some u'
          \<and> backupCodes u' = backupCodes u" for i
    using assms(1) by (intro updateOne_keeps_backupCodes resetLoginAttempts_frame)
  have "\<exists>u'. findById a (snd (findByCredentials X now us em pw)) = Some u'
          \<and> backupCodes u' = backupCodes u"
    using assms(1) inc res by (simp add: findByCredentials_def split: option.splits)
  with FindByCredentials show ?thesis by (simp add: shrinks_if_kept)
next
  case (LoginUser now em pw)
  with assms show ?thesis by (simp add: loginUser_collection)
next
  case (CreateUser now new_id salt em pw nick)
  with assms show ?thesis
    by (auto simp: createUser_def User_create_def Let_def findById_append
        split: sum.splits if_splits)
next
  case (SavePassword i now salt pw)
  have upd: "\<exists>u'. findById a
                    (updateOne i
                       (\<lambda>d. (save_defaults l d)\<lparr>password := p, lastPasswordChange := t\<rparr>) us)
                 = Some u' \<and> backupCodes u' = backupCodes u" for l p t
    using assms(1)
    by (intro updateOne_keeps_backupCodes) (simp_all add: save_defaults_frame)
  have "\<exists>u'. findById a (savePasswordById X env now salt pw i us) = Some u'
          \<and> backupCodes u' = backupCodes u"
    using assms(1) upd by (simp add: savePasswordById_def split: option.splits sum.splits)
  with SavePassword show ?thesis by (simp add: shrinks_if_kept)
next
  case (UpdateNickname i n)
  have "\<exists>u'. findById a (updateOne i (\<lambda>d. d\<lparr>nickname := trim X n\<rparr>) us) = Some u'
          \<and> backupCodes u' = backupCodes u"
    using assms(1) by (intro updateOne_keeps_backupCodes) simp_all
  with UpdateNickname show ?thesis by (simp add: shrinks_if_kept)
next
  case (ValidateBackupCode i code)
  with assms show ?thesis by (simp add: validateBackupCode_findById)
next
  case (GenerateBackupCodes i src)
  with assms show ?thesis by simp
qed

lemma run_ops_backupCodes:
  assumes "findById a us = Some u" and "\<forall>opn \<in> set ops. \<not> is_generate opn"
  shows "\<exists>u'. findById a (run_ops X env ops us) = Some u'
           \<and> mset (backupCodes u') \<subseteq># mset (backupCodes u)"
  using assms
proof (induction ops arbitrary: us u)
  case Nil
  then show ?case by simp
next
  case (Cons opn ops)
  from Cons.prems obtain v where v: "findById a (account_step X env opn us) = Some v"
    and sub: "mset (backupCodes v) \<subseteq># mset (backupCodes u)"
    using account_step_backupCodes [of a us u opn X env] by auto
  from Cons.IH [OF v] Cons.prems(2) obtain w where
    w: "findById a (run_ops X env ops (account_step X env opn us)) = Some w"
    and sub': "mset (backupCodes w) \<subseteq># mset (backupCodes v)"
    by auto
  from sub sub' have "mset (backupCodes w) \<subseteq># mset (backupCodes u)"
    by (rule subset_mset.order_trans [rotated])
  with w show ?case by simp
qed

text \<open>
  When no two requests overlap (each operation runs from its read to its write before
  the next starts), for a stored account: \<open>validateBackupCode\<close> returns true exactly
  when the hash of the code is among the account's backup codes, and then the stored
  array loses one occurrence of that hash and nothing else (the save also writes the
  defaults of \<open>save_defaults\<close>; on failure nothing is written), and no other account is
  touched; after any sequence of the operations that write user documents, none of them
  \<open>generateBackupCodes\<close>, the account's backup codes are a sub-multiset of what they
  were; and \<open>generateBackupCodes\<close> replaces the array with the hashes of the five codes
  it returns, each the upper-case hexadecimal form of eight bytes of the random source.
\<close>

theorem backupCodes_shrink_without_overlap:
  assumes "findById a us = Some u"
  shows "fst (validateBackupCode X us a code) = (sha256_hex X code \<in> set (backupCodes u))
       \<and> findById a (snd (validateBackupCode X us a code)) =
           Some (if sha256_hex X code \<in> set (backupCodes u)
                 then (save_defaults u u)
                        \<lparr>backupCodes := remove1 (sha256_hex X code) (backupCodes u)\<rparr>
                 else u)
       \<and> (\<forall>b. b \<noteq> a \<longrightarrow>
             findById b (snd (validateBackupCode X us a code)) = findById b us)
       \<and> (\<forall>ops. (\<forall>opn \<in> set ops. \<not> is_generate opn) \<longrightarrow>
             (\<exists>u'. findById a (run_ops X env ops us) = Some u'
                    \<and> mset (backupCodes u') \<subseteq># mset (backupCodes u)))
       \<and> fst (generateBackupCodes X src us a)
           = map (\<lambda>k. hex_upper (randomBytes src (8 * k) 8)) [0 ..< 5]
       \<and> length (fst (generateBackupCodes X src us a)) = 5
       \<and> (\<forall>c \<in> set (fst (generateBackupCodes X src us a)). length c = 16)
       \<and> findById a (snd (generateBackupCodes X src us a)) =
           Some (u\<lparr>backupCodes :=
                     map (sha256_hex X) (fst (generateBackupCodes X src us a))\<rparr>)"
proof -
  from assms have id: "user_id u = a" by (rule findById_id)
  have v1: "fst (validateBackupCode X us a code) = (sha256_hex X code \<in> set (backupCodes u))"
    using assms by (simp add: validateBackupCode_account)
  have v2: "findById a (snd (validateBackupCode X us a code)) =
           Some (if sha256_hex X code \<in> set (backupCodes u)
                 then (save_defaults u u)
                        \<lparr>backupCodes := remove1 (sha256_hex X code) (backupCodes u)\<rparr>
                 else u)"
    using assms id by (simp add: validateBackupCode_account validateBackupCode_save_findById)
  have v3: "\<forall>b. b \<noteq> a \<longrightarrow>
              findById b (snd (validateBackupCode X us a code)) = findById b us"
    using assms by (simp add: validateBackupCode_other)
  have r: "\<forall>ops. (\<forall>opn \<in> set ops. \<not> is_generate opn) \<longrightarrow>
             (\<exists>u'. findById a (run_ops X env ops us) = Some u'
                    \<and> mset (backupCodes u') \<subseteq># mset (backupCodes u))"
    using assms by (blast intro: run_ops_backupCodes)
  from v1 v2 v3 r generateBackupCodes_account [OF assms, of X src] show ?thesis
    by blast
qed

theorem backupCodes_shrink_without_overlap_witness:
  "findById ''u1'' [backup_alice] = Some backup_alice
   \<and> fst (validateBackupCode test_externals [backup_alice] ''u1'' ''0123456789ABCDEF'')
   \<and> findById ''u1''
        (snd (validateBackupCode test_externals [backup_alice] ''u1'' ''0123456789ABCDEF''))
       = Some (alice\<lparr>backupCodes := [''sha256:FEDCBA9876543210'']\<rparr>)
   \<and> \<not> fst (validateBackupCode test_externals
               (snd (validateBackupCode test_externals [backup_alice] ''u1''
                       ''0123456789ABCDEF''))
               ''u1'' ''0123456789ABCDEF'')
   \<and> length (fst (generateBackupCodes test_externals test_source [backup_alice] ''u1'')) = 5"
proof -
  have h: "findById ''u1'' [backup_alice] = Some backup_alice"
    by code_simp
  have m: "sha256_hex test_externals ''0123456789ABCDEF'' \<in> set (backupCodes backup_alice)"
    by code_simp
  have e: "(save_defaults backup_alice backup_alice)\<lparr>backupCodes :=
             remove1 (sha256_hex test_externals ''0123456789ABCDEF'')
               (backupCodes backup_alice)\<rparr>
           = alice\<lparr>backupCodes := [''sha256:FEDCBA9876543210'']\<rparr>"
    by code_simp
  have again: "\<not> fst (validateBackupCode test_externals
               (snd (validateBackupCode test_externals [backup_alice] ''u1''
                       ''0123456789ABCDEF''))
               ''u1'' ''0123456789ABCDEF'')"
    by code_simp
  from backupCodes_shrink_without_overlap
         [OF h, of test_externals "''0123456789ABCDEF''" test_env test_source]
    h m e again
  show ?thesis by simp
qed

section \<open>Password normalisation\<close>

lemma createUser_success:
  assumes "createUser X env t0 new_id salt us (em0, p, nick) = (Inr su, us')"
  shows "\<exists>doc. us' = us @ [doc] \<and> su = sanitizeUser doc
           \<and> email doc = normalizeEmail X (normalizeEmail X (normalizeEmail X em0))
           \<and> password doc = bcrypt_hash X (nfkc X p) (getPasswordSaltRounds env) salt
           \<and> findByEmail (email doc) us = None"
  using assms
  by (auto simp: createUser_def User_create_def Let_def normalizeEmail_def
      normalizePassword_def split: if_splits sum.splits)

text \<open>
  C10. For two passwords with the same NFKC form: \<open>loginUser\<close> gives the same result
  for both, on every collection; two registrations that differ only in which of the two
  was typed, and that both succeed, store the same document (same hash, for the same
  salt); and after a registration with the one, a login with the other succeeds. The
  last part assumes that bcrypt accepts the hash it made of the normalised password,
  that the normalised email is a fixed point of the normalisation, that the login email
  normalises to the registered one, and that tokens can be issued.
\<close>

theorem nfkc_equal_passwords_authenticate:
  assumes eq: "nfkc X p1 = nfkc X p2"
  shows "loginUser X env now us em p1 = loginUser X env now us em p2
       \<and> (\<forall>su us' su2 us2.
             createUser X env t0 new_id salt us (em0, p1, nick) = (Inr su, us')
             \<and> createUser X env t0 new_id salt us (em0, p2, nick) = (Inr su2, us2)
             \<longrightarrow> us2 = us' \<and> su2 = su)
       \<and> (\<forall>su us' secret ttl.
             createUser X env t0 new_id salt us (em0, p1, nick) = (Inr su, us')
             \<and> normalizeEmail X (normalizeEmail X em0) = normalizeEmail X em0
             \<and> normalizeEmail X em = normalizeEmail X em0
             \<and> bcrypt_compare X (nfkc X p1)
                  (bcrypt_hash X (nfkc X p1) (getPasswordSaltRounds env) salt)
             \<and> getJwtSecret env = Inr secret
             \<and> timespan X (getJwtExpiresIn env) = Some ttl
             \<longrightarrow> (\<exists>tok. loginUser X env now us' em p2 = (Inr (su, tok), us')))"
proof -
  have n: "normalizePassword X p1 = normalizePassword X p2"
    using eq by (simp add: normalizePassword_def)
  have a: "loginUser X env now us em p1 = loginUser X env now us em p2"
    by (simp add: loginUser_def n split: option.splits)
  have b: "us2 = us' \<and> su2 = su"
    if "createUser X env t0 new_id salt us (em0, p1, nick) = (Inr su, us')"
      and "createUser X env t0 new_id salt us (em0, p2, nick) = (Inr su2, us2)"
    for su us' su2 us2
    using that eq
    by (auto simp: createUser_def User_create_def Let_def normalizePassword_def
        split: if_splits sum.splits)
  have c: "\<exists>tok. loginUser X env now us' em p2 = (Inr (su, tok), us')"
    if reg: "createUser X env t0 new_id salt us (em0, p1, nick) = (Inr su, us')"
      and fixed: "normalizeEmail X (normalizeEmail X em0) = normalizeEmail X em0"
      and em: "normalizeEmail X em = normalizeEmail X em0"
      and bc: "bcrypt_compare X (nfkc X p1)
                  (bcrypt_hash X (nfkc X p1) (getPasswordSaltRounds env) salt)"
      and sec: "getJwtSecret env = Inr secret"
      and ttl: "timespan X (getJwtExpiresIn env) = Some ttl"
    for su us' secret ttl
  proof -
    from createUser_success [OF reg] obtain doc where
      us': "us' = us @ [doc]" and su: "su = sanitizeUser doc"
      and mail: "email doc = normalizeEmail X (normalizeEmail X (normalizeEmail X em0))"
      and pw: "password doc = bcrypt_hash X (nfkc X p1) (getPasswordSaltRounds env) salt"
      and fresh: "findByEmail (email doc) us = None"
      by blast
    from mail fixed em have key: "normalizeEmail X em = email doc" by simp
    with fresh us' have found: "findByEmail (normalizeEmail X em) us' = Some doc"
      by (simp add: findByEmail_append_new)
    from pw bc eq have ok: "comparePasswords X (normalizePassword X p2) (password doc)"
      by (simp add: comparePasswords_def normalizePassword_def)
    from generateToken_ok [OF sec ttl] obtain tok where
      tok: "generateToken X env now (user_id doc, email doc, nickname doc) = Inr tok"
      by blast
    from found ok tok su show ?thesis by (simp add: loginUser_def)
  qed
  from a b c show ?thesis by blast
qed

theorem nfkc_equal_passwords_authenticate_witness:
  "nfkc test_externals typed_password = nfkc test_externals ''Str0ng!Pass''
   \<and> typed_password \<noteq> ''Str0ng!Pass''
   \<and> createUser test_externals test_env 1000 ''u2'' ''salt'' [alice]
        ('' Bob@Example.com '', typed_password, ''bob_02'')
       = (Inr (sanitizeUser bob), [alice, bob])
   \<and> (\<exists>tok. loginUser test_externals test_env 2000 [alice, bob] ''bob@example.com''
               ''Str0ng!Pass''
             = (Inr (sanitizeUser bob, tok), [alice, bob]))"
proof -
  have eq: "nfkc test_externals typed_password = nfkc test_externals ''Str0ng!Pass''"
    by code_simp
  have ne: "typed_password \<noteq> ''Str0ng!Pass''"
    by code_simp
  have reg: "createUser test_externals test_env 1000 ''u2'' ''salt'' [alice]
               ('' Bob@Example.com '', typed_password, ''bob_02'')
             = (Inr (sanitizeUser bob), [alice, bob])"
    by code_simp
  have fixed: "normalizeEmail test_externals (normalizeEmail test_externals '' Bob@Example.com '')
             = normalizeEmail test_externals '' Bob@Example.com ''"
    by code_simp
  have em: "normalizeEmail test_externals ''bob@example.com''
             = normalizeEmail test_externals '' Bob@Example.com ''"
    by code_simp
  have bc: "bcrypt_compare test_externals (nfkc test_externals typed_password)
              (bcrypt_hash test_externals (nfkc test_externals typed_password)
                 (getPasswordSaltRounds test_env) ''salt'')"
    by code_simp
  have sec: "getJwtSecret test_env = Inr ''s3cret''" by code_simp
  have ttl: "timespan test_externals (getJwtExpiresIn test_env) = Some 604800" by code_simp
  from nfkc_equal_passwords_authenticate
         [OF eq, of test_env 2000 "[alice]" "''bob@example.com''" 1000 "''u2''" "''salt''"
            "'' Bob@Example.com ''" "''bob_02''"]
    reg fixed em bc sec ttl
  have "\<exists>tok. loginUser test_externals test_env 2000 [alice, bob] ''bob@example.com''
               ''Str0ng!Pass''
             = (Inr (sanitizeUser bob, tok), [alice, bob])"
    by blast
  with eq ne reg show ?thesis by blast
qed

end
